theory Spec2Isabelle
  imports Main
begin

section \<open>The membership ledger\<close>

text \<open>
  The ledger is the pair of tables \<^verbatim>\<open>rooms\<close> and \<^verbatim>\<open>room_participants\<close>.
  Identifiers (\<^verbatim>\<open>uuid\<close>) are natural numbers, timestamps are seconds on the integer
  line, so that \<^verbatim>\<open>interval '2 minutes'\<close> is 120. A nullable text column is a
  \<open>string option\<close>. A room row carries the columns that the stored functions read or
  write (its name, theme and description play no part); a participant row carries all
  columns but its generated \<^verbatim>\<open>id\<close>. The two values of \<^verbatim>\<open>status\<close> are those
  its check admits, \<^verbatim>\<open>'active'\<close> and \<^verbatim>\<open>'archived'\<close>.
\<close>

type_synonym uuid = nat
type_synonym timestamp = int

datatype room_status = Active | Archived

datatype app_role = AppParticipant | AppOrganizer | AppJudge

datatype room_role = RoomMember | RoomOrganizer | RoomJudge

record room =
  r_id :: uuid
  created_by :: uuid
  max_participants :: int
  current_user_count :: int
  status :: room_status
  join_code :: string
  is_private :: bool
  updated_at :: timestamp

record participant =
  room_id :: uuid
  user_id :: uuid
  joined_at :: timestamp
  is_active :: bool
  last_seen :: timestamp
  device_id :: "string option"
  p_room_role :: room_role

record db =
  rooms :: "room list"
  room_participants :: "participant list"

text \<open>
  What a stored function hands back: the \<^verbatim>\<open>error\<close> strings of the
  \<^verbatim>\<open>jsonb\<close> replies, and the two store-level failures (a violated
  \<^verbatim>\<open>CHECK\<close> on \<^verbatim>\<open>current_user_count\<close>, a violated unique index on
  \<^verbatim>\<open>join_code\<close>), which abort the call and roll its writes back.
\<close>

datatype error =
    Room_not_found
  | Room_is_not_active
  | Invalid_join_code
  | Room_full
  | User_not_in_room
  | Participant_not_found
  | Only_the_host
  | Check_violation
  | Unique_violation

subsection \<open>Store-level constraints\<close>

text \<open>\<^verbatim>\<open>CHECK (current_user_count >= 0 AND current_user_count <= 5)\<close>\<close>

definition count_check :: "int \<Rightarrow> bool" where
  "count_check c = (0 \<le> c \<and> c \<le> 5)"

text \<open>
  \<^verbatim>\<open>UPDATE rooms SET ... WHERE ...\<close>: every row selected by \<open>P\<close> is rewritten by
  \<open>f\<close>; the statement fails as a whole when a rewritten row violates the check.
\<close>

definition update_rooms :: "(room \<Rightarrow> bool) \<Rightarrow> (room \<Rightarrow> room) \<Rightarrow> room list \<Rightarrow> room list option" where
  "update_rooms P f rs =
     (if list_all (\<lambda>r. count_check (current_user_count (f r))) (filter P rs)
      then Some (map (\<lambda>r. if P r then f r else r) rs)
      else None)"

text \<open>\<^verbatim>\<open>SELECT COUNT(*) FROM room_participants WHERE room_id = rid AND is_active = true\<close>\<close>

definition active_count :: "participant list \<Rightarrow> uuid \<Rightarrow> nat" where
  "active_count ps rid = length (filter (\<lambda>p. room_id p = rid \<and> is_active p) ps)"

definition find_room :: "db \<Rightarrow> uuid \<Rightarrow> room option" where
  "find_room d rid = find (\<lambda>r. r_id r = rid) (rooms d)"

definition is_row :: "uuid \<Rightarrow> uuid \<Rightarrow> participant \<Rightarrow> bool" where
  "is_row rid uid p = (room_id p = rid \<and> user_id p = uid)"

subsection \<open>The transactor: join and leave\<close>

text \<open>
  The statements of \<^verbatim>\<open>join_room\<close> on \<^verbatim>\<open>room_participants\<close>: the
  \<^verbatim>\<open>UPDATE\<close> of the rejoin branch, with
  \<^verbatim>\<open>device_id = COALESCE(p_device_id, device_id)\<close>, and the row of the
  \<^verbatim>\<open>INSERT\<close>, which names five columns; \<^verbatim>\<open>room_role\<close> takes its column
  default \<^verbatim>\<open>'member'\<close> and \<^verbatim>\<open>joined_at\<close> the time of the call. The insert
  cannot violate the uniqueness of \<^verbatim>\<open>(room_id, user_id)\<close>: it is reached only when
  no row with that key exists.
\<close>

definition rejoin_rows ::
  "timestamp \<Rightarrow> uuid \<Rightarrow> uuid \<Rightarrow> string option \<Rightarrow> participant list \<Rightarrow> participant list" where
  "rejoin_rows now p_room_id p_user_id p_device_id ps =
     map (\<lambda>p. if is_row p_room_id p_user_id p
               then p\<lparr>is_active := True, last_seen := now,
                      device_id := (case p_device_id of Some v \<Rightarrow> Some v | None \<Rightarrow> device_id p)\<rparr>
               else p) ps"

definition new_row :: "timestamp \<Rightarrow> uuid \<Rightarrow> uuid \<Rightarrow> string option \<Rightarrow> participant" where
  "new_row now p_room_id p_user_id p_device_id =
     \<lparr>room_id = p_room_id, user_id = p_user_id, joined_at = now, is_active = True,
      last_seen = now, device_id = p_device_id, p_room_role = RoomMember\<rparr>"

text \<open>
  \<^verbatim>\<open>join_room(p_room_id, p_user_id, p_device_id, p_join_code)\<close>, the four-argument
  version. \<open>now\<close> is the value of \<^verbatim>\<open>now()\<close> in the call. The reply is
  \<open>Inr already_member\<close> on success.
\<close>

definition join_room ::
  "db \<Rightarrow> timestamp \<Rightarrow> uuid \<Rightarrow> uuid \<Rightarrow> string option \<Rightarrow> string option \<Rightarrow> (error + bool) \<times> db" where
  "join_room d now p_room_id p_user_id p_device_id p_join_code =
     (case find_room d p_room_id of
        None \<Rightarrow> (Inl Room_not_found, d)
      | Some r \<Rightarrow>
          if status r \<noteq> Active then (Inl Room_is_not_active, d)
          else if list_ex (is_row p_room_id p_user_id) (room_participants d) then
            (let ps = rejoin_rows now p_room_id p_user_id p_device_id (room_participants d)
             in case update_rooms (\<lambda>x. r_id x = p_room_id)
                       (\<lambda>x. x\<lparr>current_user_count := int (active_count ps p_room_id)\<rparr>) (rooms d) of
                  None \<Rightarrow> (Inl Check_violation, d)
                | Some rs \<Rightarrow> (Inr True, \<lparr>rooms = rs, room_participants = ps\<rparr>))
          else if is_private r \<and> created_by r \<noteq> p_user_id
                  \<and> (p_join_code = None \<or> p_join_code \<noteq> Some (join_code r))
            then (Inl Invalid_join_code, d)
          else if current_user_count r \<ge> max_participants r then (Inl Room_full, d)
          else
            (let ps = room_participants d @ [new_row now p_room_id p_user_id p_device_id]
             in case update_rooms (\<lambda>x. r_id x = p_room_id)
                       (\<lambda>x. x\<lparr>current_user_count := current_user_count x + 1,
                               updated_at := now\<rparr>) (rooms d) of
                  None \<Rightarrow> (Inl Check_violation, d)
                | Some rs \<Rightarrow> (Inr False, \<lparr>rooms = rs, room_participants = ps\<rparr>)))"

text \<open>\<^verbatim>\<open>leave_room(p_room_id, p_user_id)\<close>\<close>

definition leave_rows :: "timestamp \<Rightarrow> uuid \<Rightarrow> uuid \<Rightarrow> participant list \<Rightarrow> participant list" where
  "leave_rows now p_room_id p_user_id ps =
     map (\<lambda>p. if is_row p_room_id p_user_id p
               then p\<lparr>is_active := False, last_seen := now\<rparr> else p) ps"

definition has_active_row :: "db \<Rightarrow> uuid \<Rightarrow> uuid \<Rightarrow> bool" where
  "has_active_row d rid uid =
     list_ex (\<lambda>p. is_row rid uid p \<and> is_active p) (room_participants d)"

definition leave_room :: "db \<Rightarrow> timestamp \<Rightarrow> uuid \<Rightarrow> uuid \<Rightarrow> (error + unit) \<times> db" where
  "leave_room d now p_room_id p_user_id =
     (if \<not> has_active_row d p_room_id p_user_id
      then (Inl User_not_in_room, d)
      else
        (let ps = leave_rows now p_room_id p_user_id (room_participants d)
         in case update_rooms (\<lambda>x. r_id x = p_room_id)
                   (\<lambda>x. x\<lparr>current_user_count := max 0 (current_user_count x - 1),
                           updated_at := now\<rparr>) (rooms d) of
              None \<Rightarrow> (Inl Check_violation, d)
            | Some rs \<Rightarrow> (Inr (), \<lparr>rooms = rs, room_participants = ps\<rparr>)))"

subsection \<open>The heartbeat monitor\<close>

text \<open>\<^verbatim>\<open>room_heartbeat(p_room_id, p_user_id)\<close>\<close>

definition heartbeat_rows :: "timestamp \<Rightarrow> uuid \<Rightarrow> uuid \<Rightarrow> participant list \<Rightarrow> participant list" where
  "heartbeat_rows now p_room_id p_user_id ps =
     map (\<lambda>p. if is_row p_room_id p_user_id p \<and> is_active p
               then p\<lparr>last_seen := now\<rparr> else p) ps"

definition room_heartbeat :: "db \<Rightarrow> timestamp \<Rightarrow> uuid \<Rightarrow> uuid \<Rightarrow> (error + unit) \<times> db" where
  "room_heartbeat d now p_room_id p_user_id =
     (if \<not> has_active_row d p_room_id p_user_id
      then (Inl Participant_not_found, d)
      else (Inr (), d\<lparr>room_participants :=
                        heartbeat_rows now p_room_id p_user_id (room_participants d)\<rparr>))"

text \<open>The liveness threshold, \<^verbatim>\<open>interval '2 minutes'\<close>, in seconds.\<close>

definition liveness_threshold :: int where
  "liveness_threshold = 120"

definition stale :: "timestamp \<Rightarrow> participant \<Rightarrow> bool" where
  "stale now p = (is_active p \<and> last_seen p < now - liveness_threshold)"

text \<open>\<^verbatim>\<open>cleanup_inactive_participants()\<close>: the sweep.\<close>

definition sweep_rows :: "timestamp \<Rightarrow> participant list \<Rightarrow> participant list" where
  "sweep_rows now ps = map (\<lambda>p. if stale now p then p\<lparr>is_active := False\<rparr> else p) ps"

definition cleanup_inactive_participants :: "db \<Rightarrow> timestamp \<Rightarrow> (error + unit) \<times> db" where
  "cleanup_inactive_participants d now =
     (let ps = sweep_rows now (room_participants d)
      in case update_rooms (\<lambda>x. True)
                (\<lambda>x. x\<lparr>current_user_count := int (active_count ps (r_id x))\<rparr>) (rooms d) of
           None \<Rightarrow> (Inl Check_violation, d)
         | Some rs \<Rightarrow> (Inr (), \<lparr>rooms = rs, room_participants = ps\<rparr>))"

subsection \<open>Join codes\<close>

text \<open>
  \<^verbatim>\<open>SUBSTR(s, start, n)\<close> with a start position counted from 1; a start of 0 covers
  one position before the string.
\<close>

definition substr :: "string \<Rightarrow> nat \<Rightarrow> nat \<Rightarrow> string" where
  "substr s start n = (if start = 0 then take (n - 1) s else take n (drop (start - 1) s))"

definition chars :: string where
  "chars = ''ABCDEFGHJKLMNPQRSTUVWXYZ23456789''"

text \<open>
  \<^verbatim>\<open>generate_join_code()\<close>. The random source is a parameter: \<open>draw i\<close> is the value
  of \<^verbatim>\<open>FLOOR(RANDOM() * LENGTH(chars) + 1)::integer\<close> in iteration \<open>i\<close> of the loop,
  a position between 1 and 32 since \<^verbatim>\<open>RANDOM()\<close> lies in [0, 1).
\<close>

definition generate_join_code :: "(nat \<Rightarrow> nat) \<Rightarrow> string" where
  "generate_join_code draw = foldl (\<lambda>result i. result @ substr chars (draw i) 1) [] [1..<7]"

definition draw_ok :: "(nat \<Rightarrow> nat) \<Rightarrow> bool" where
  "draw_ok draw = list_all (\<lambda>i. 1 \<le> draw i \<and> draw i \<le> length chars) [1..<7]"

text \<open>
  \<^verbatim>\<open>regenerate_join_code(p_room_id, p_user_id)\<close>. The unique index
  \<^verbatim>\<open>idx_rooms_join_code\<close> rejects the update when another room holds the new code.
\<close>

definition regenerate_join_code ::
  "db \<Rightarrow> (nat \<Rightarrow> nat) \<Rightarrow> uuid \<Rightarrow> uuid \<Rightarrow> (error + string) \<times> db" where
  "regenerate_join_code d draw p_room_id p_user_id =
     (case find_room d p_room_id of
        None \<Rightarrow> (Inl Room_not_found, d)
      | Some r \<Rightarrow>
          if created_by r \<noteq> p_user_id then (Inl Only_the_host, d)
          else
            (let v_new_code = generate_join_code draw
             in if list_ex (\<lambda>x. r_id x \<noteq> p_room_id \<and> join_code x = v_new_code) (rooms d)
                then (Inl Unique_violation, d)
                else case update_rooms (\<lambda>x. r_id x = p_room_id)
                            (\<lambda>x. x\<lparr>join_code := v_new_code\<rparr>) (rooms d) of
                       None \<Rightarrow> (Inl Check_violation, d)
                     | Some rs \<Rightarrow> (Inr v_new_code, d\<lparr>rooms := rs\<rparr>)))"

subsection \<open>The role resolver\<close>

text \<open>
  \<^verbatim>\<open>useRoles\<close>: \<open>roles\<close> is the list of global roles fetched for the caller.
\<close>

definition isOrganizer :: "app_role list \<Rightarrow> bool" where
  "isOrganizer roles = (AppOrganizer \<in> set roles)"

definition isJudge :: "app_role list \<Rightarrow> bool" where
  "isJudge roles = (AppJudge \<in> set roles)"

text \<open>
  \<^verbatim>\<open>.maybeSingle()\<close>: the row when exactly one matches; no data when none matches,
  and an error (hence no data) when several do.
\<close>

definition maybeSingle :: "'a list \<Rightarrow> 'a option" where
  "maybeSingle rows = (case rows of [x] \<Rightarrow> Some x | _ \<Rightarrow> None)"

definition fetchRoomRole :: "db \<Rightarrow> app_role list \<Rightarrow> uuid \<Rightarrow> uuid \<Rightarrow> room_role option" where
  "fetchRoomRole d roles roomId user =
     (case maybeSingle (filter (\<lambda>p. room_id p = roomId \<and> user_id p = user \<and> is_active p)
                               (room_participants d)) of
        Some dat \<Rightarrow> Some (p_room_role dat)
      | None \<Rightarrow> if isOrganizer roles then Some RoomOrganizer
                else if isJudge roles then Some RoomJudge
                else None)"

record permissions =
  roomRole :: "room_role option"
  canEdit :: bool
  canComment :: bool
  canKick :: bool
  isReadOnly :: bool
  isOrganizerMode :: bool
  isJudgeMode :: bool

text \<open>
  \<^verbatim>\<open>useRoomRole(roomId)\<close>, once its effect has settled. Without a signed-in user
  there are no global roles and no room role.
\<close>

definition useRoomRole :: "db \<Rightarrow> app_role list \<Rightarrow> uuid option \<Rightarrow> uuid option \<Rightarrow> permissions" where
  "useRoomRole d roles roomId user =
     (let rr = (case (user, roomId) of
                  (Some u, Some rid) \<Rightarrow> fetchRoomRole d roles rid u
                | _ \<Rightarrow> None)
      in \<lparr>roomRole = rr,
          canEdit = (rr = Some RoomMember),
          canComment = (rr = Some RoomOrganizer \<or> rr = Some RoomMember),
          canKick = (rr = Some RoomOrganizer),
          isReadOnly = (rr = Some RoomOrganizer \<or> rr = Some RoomJudge),
          isOrganizerMode = (rr = Some RoomOrganizer),
          isJudgeMode = (rr = Some RoomJudge)\<rparr>)"

subsection \<open>Ledger invariants and runs of operations\<close>

text \<open>
  The store keeps every room row within the check on its counter and keeps
  \<^verbatim>\<open>(room_id, user_id)\<close> unique (\<^verbatim>\<open>room_participants_room_user_unique\<close>).
  A counter is exact when it equals the number of active rows of its room.
\<close>

definition store_ok :: "db \<Rightarrow> bool" where
  "store_ok d = list_all (\<lambda>r. count_check (current_user_count r)) (rooms d)"

definition row_key :: "participant \<Rightarrow> uuid \<times> uuid" where
  "row_key p = (room_id p, user_id p)"

definition keys_distinct :: "db \<Rightarrow> bool" where
  "keys_distinct d = distinct (map row_key (room_participants d))"

definition counts_exact :: "db \<Rightarrow> bool" where
  "counts_exact d =
     list_all (\<lambda>r. current_user_count r = int (active_count (room_participants d) (r_id r)))
              (rooms d)"

definition ledger_ok :: "db \<Rightarrow> bool" where
  "ledger_ok d = (store_ok d \<and> keys_distinct d \<and> counts_exact d)"

datatype op =
    Join uuid uuid "string option" "string option"
  | Leave uuid uuid
  | Heartbeat uuid uuid
  | Sweep

text \<open>One call at time \<open>now\<close>; only the ledger it leaves behind is kept.\<close>

fun exec :: "db \<Rightarrow> timestamp \<times> op \<Rightarrow> db" where
  "exec d (now, Join rid uid dev code) = snd (join_room d now rid uid dev code)"
| "exec d (now, Leave rid uid) = snd (leave_room d now rid uid)"
| "exec d (now, Heartbeat rid uid) = snd (room_heartbeat d now rid uid)"
| "exec d (now, Sweep) = snd (cleanup_inactive_participants d now)"

definition run :: "db \<Rightarrow> (timestamp \<times> op) list \<Rightarrow> db" where
  "run d ops = foldl exec d ops"

subsection \<open>Sample ledgers\<close>

text \<open>A fresh private room 1, created by user 10, with capacity \<open>n\<close>.\<close>

definition fresh_room :: "int \<Rightarrow> room" where
  "fresh_room n = \<lparr>r_id = 1, created_by = 10, max_participants = n, current_user_count = 0,
                   status = Active, join_code = ''ABCDEF'', is_private = True, updated_at = 0\<rparr>"

definition fresh_ledger :: "int \<Rightarrow> db" where
  "fresh_ledger n = \<lparr>rooms = [fresh_room n], room_participants = []\<rparr>"

definition row :: "uuid \<Rightarrow> uuid \<Rightarrow> bool \<Rightarrow> timestamp \<Rightarrow> participant" where
  "row rid uid act seen = \<lparr>room_id = rid, user_id = uid, joined_at = 0, is_active = act,
                           last_seen = seen, device_id = None, p_room_role = RoomMember\<rparr>"

text \<open>
  Five members fill room 1; member 10 leaves, 15 takes the seat, then 10 comes back.
\<close>

definition code1 :: "string option" where
  "code1 = Some ''ABCDEF''"

definition busy_evening :: "(timestamp \<times> op) list" where
  "busy_evening =
     [(1, Join 1 10 None None), (2, Join 1 11 None code1), (3, Join 1 12 None code1),
      (4, Join 1 13 None code1), (5, Join 1 14 None code1), (6, Leave 1 10),
      (7, Join 1 15 None code1), (8, Heartbeat 1 11), (9, Sweep), (10, Join 1 10 None None)]"

text \<open>The same in a room for two: 10 and 11 join, 10 leaves, 12 joins, 10 comes back.\<close>

definition musical_chairs :: "(timestamp \<times> op) list" where
  "musical_chairs =
     [(1, Join 1 10 None None), (2, Join 1 11 None code1), (3, Leave 1 10),
      (4, Join 1 12 None code1), (5, Join 1 10 None None)]"

text \<open>The property of the capacity claim: no room holds more active rows than its capacity.\<close>

definition within_capacity :: "db \<Rightarrow> bool" where
  "within_capacity d =
     list_all (\<lambda>r. int (active_count (room_participants d) (r_id r)) \<le> max_participants r)
              (rooms d)"

text \<open>Room 1 after the first seven calls of the evening: five active rows, 10 inactive.\<close>

definition full_house :: db where
  "full_house = run (fresh_ledger 5) (take 7 busy_evening)"

text \<open>Room 1 one call earlier: member 10 has left and the seat is still free.\<close>

definition after_leave :: db where
  "after_leave = run (fresh_ledger 5) (take 6 busy_evening)"

text \<open>A room for six after five members have joined.\<close>

definition five_of_six :: db where
  "five_of_six = run (fresh_ledger 6) (take 5 busy_evening)"

text \<open>A room for one whose counter says 0 while member 11 is active.\<close>

definition drifted_ledger :: db where
  "drifted_ledger = \<lparr>rooms = [fresh_room 1], room_participants = [row 1 11 True 0]\<rparr>"

text \<open>
  Two rooms at time 1000: in room 1 member 10 was last seen at 800 and member 11 at 990;
  in room 2 member 12 was last seen at 995.
\<close>

definition two_rooms :: db where
  "two_rooms = \<lparr>rooms = [(fresh_room 5)\<lparr>current_user_count := 2\<rparr>,
                          (fresh_room 5)\<lparr>r_id := 2, join_code := ''GHJKLM'',
                                          current_user_count := 1\<rparr>],
                 room_participants = [row 1 10 True 800, row 1 11 True 990, row 2 12 True 995]\<rparr>"

text \<open>Room 1 with a counter of 3 and a single active member, last seen at 995.\<close>

definition miscounted :: db where
  "miscounted = \<lparr>rooms = [(fresh_room 5)\<lparr>current_user_count := 3\<rparr>],
                  room_participants = [row 1 11 True 995]\<rparr>"

text \<open>
  Two outcomes of the random draws: the positions 7 to 12, which spell the code of room
  2 of the two rooms, and six times the last position.
\<close>

definition draw_room2 :: "nat \<Rightarrow> nat" where
  "draw_room2 i = i + 6"

definition draw_last :: "nat \<Rightarrow> nat" where
  "draw_last i = 32"

text \<open>
  Two rooms within the store's constraints at time 1000: room 1 has the counter 5 and six
  active members, all last seen at 995; in room 2 member 20 was last seen at 800.
\<close>

definition crowded :: db where
  "crowded = \<lparr>rooms = [(fresh_room 5)\<lparr>current_user_count := 5\<rparr>,
                        (fresh_room 5)\<lparr>r_id := 2, join_code := ''GHJKLM'',
                                        current_user_count := 1\<rparr>],
               room_participants = [row 1 10 True 995, row 1 11 True 995, row 1 12 True 995,
                                    row 1 13 True 995, row 1 14 True 995, row 1 15 True 995,
                                    row 2 20 True 800]\<rparr>"

section \<open>Auxiliary facts\<close>

lemma find_Some_mem: "find P rs = Some r \<Longrightarrow> r \<in> set rs \<and> P r"
  by (induction rs) (auto split: if_splits)

lemma update_rooms_Some:
  "update_rooms P f rs = Some rs' \<Longrightarrow>
     rs' = map (\<lambda>r. if P r then f r else r) rs
     \<and> (\<forall>r\<in>set rs. P r \<longrightarrow> count_check (current_user_count (f r)))"
  by (auto simp: update_rooms_def list_all_iff split: if_splits)

lemma update_rooms_None:
  "update_rooms P f rs = None \<Longrightarrow> \<exists>r\<in>set rs. P r \<and> \<not> count_check (current_user_count (f r))"
  by (auto simp: update_rooms_def list_all_iff split: if_splits)

lemma update_rooms_store:
  "list_all (\<lambda>r. count_check (current_user_count r)) rs \<Longrightarrow> update_rooms P f rs = Some rs'
     \<Longrightarrow> list_all (\<lambda>r. count_check (current_user_count r)) rs'"
  by (auto simp: update_rooms_def list_all_iff split: if_splits)

lemma active_count_append:
  "active_count (ps @ [p]) rid
     = active_count ps rid + (if room_id p = rid \<and> is_active p then 1 else 0)"
  by (simp add: active_count_def)

lemma active_count_map_other:
  "(\<And>p. p \<in> set ps \<Longrightarrow> room_id (g p) = room_id p) \<Longrightarrow>
   (\<And>p. p \<in> set ps \<Longrightarrow> room_id p = rid' \<Longrightarrow> is_active (g p) = is_active p) \<Longrightarrow>
     active_count (map g ps) rid' = active_count ps rid'"
  by (induction ps) (auto simp: active_count_def)

lemma active_count_map_le:
  "(\<And>p. p \<in> set ps \<Longrightarrow> room_id (g p) = room_id p \<and> (is_active (g p) \<longrightarrow> is_active p)) \<Longrightarrow>
     active_count (map g ps) rid \<le> active_count ps rid"
  by (induction ps) (auto simp: active_count_def)

lemma has_active_row_iff:
  "has_active_row d rid uid = (\<exists>p\<in>set (room_participants d). is_row rid uid p \<and> is_active p)"
  by (simp add: has_active_row_def list_ex_iff)

lemma active_count_leave_rows:
  "distinct (map row_key ps) \<Longrightarrow> \<exists>p\<in>set ps. is_row rid uid p \<and> is_active p \<Longrightarrow>
   Suc (active_count (leave_rows now rid uid ps) rid) = active_count ps rid"
proof (induction ps)
  case Nil
  then show ?case by simp
next
  case (Cons a ps)
  show ?case
  proof (cases "is_row rid uid a")
    case True
    have "row_key a \<notin> row_key ` set ps" using Cons.prems(1) by simp
    with True have none: "\<forall>p\<in>set ps. \<not> is_row rid uid p"
      by (auto simp: is_row_def row_key_def image_iff)
    then have "leave_rows now rid uid ps = ps"
      by (simp add: leave_rows_def map_idI)
    moreover have "is_active a" using Cons.prems(2) True none by auto
    ultimately show ?thesis using True
      by (simp add: active_count_def is_row_def leave_rows_def)
  next
    case False
    then have "\<exists>p\<in>set ps. is_row rid uid p \<and> is_active p" using Cons.prems(2) by auto
    then have "Suc (active_count (leave_rows now rid uid ps) rid) = active_count ps rid"
      using Cons.IH Cons.prems(1) by simp
    then show ?thesis using False by (simp add: active_count_def leave_rows_def)
  qed
qed

lemma active_count_leave_rows_other:
  "rid' \<noteq> rid \<Longrightarrow> active_count (leave_rows now rid uid ps) rid' = active_count ps rid'"
  unfolding leave_rows_def by (rule active_count_map_other) (auto simp: is_row_def)

lemma active_count_rejoin_rows_other:
  "rid' \<noteq> rid \<Longrightarrow> active_count (rejoin_rows now rid uid dev ps) rid' = active_count ps rid'"
  unfolding rejoin_rows_def by (rule active_count_map_other) (auto simp: is_row_def)

lemma active_count_heartbeat_rows:
  "active_count (heartbeat_rows now rid uid ps) rid' = active_count ps rid'"
  unfolding heartbeat_rows_def by (rule active_count_map_other) auto

lemma active_count_sweep_rows_le:
  "active_count (sweep_rows now ps) rid \<le> active_count ps rid"
  unfolding sweep_rows_def by (rule active_count_map_le) auto

lemma keys_map_same:
  "(\<And>p. p \<in> set ps \<Longrightarrow> row_key (g p) = row_key p) \<Longrightarrow> map row_key (map g ps) = map row_key ps"
  by (induction ps) auto

lemma keys_rejoin_rows: "map row_key (rejoin_rows now rid uid dev ps) = map row_key ps"
  unfolding rejoin_rows_def by (rule keys_map_same) (simp add: row_key_def)

lemma keys_leave_rows: "map row_key (leave_rows now rid uid ps) = map row_key ps"
  unfolding leave_rows_def by (rule keys_map_same) (simp add: row_key_def)

lemma keys_heartbeat_rows: "map row_key (heartbeat_rows now rid uid ps) = map row_key ps"
  unfolding heartbeat_rows_def by (rule keys_map_same) (simp add: row_key_def)

lemma keys_sweep_rows: "map row_key (sweep_rows now ps) = map row_key ps"
  unfolding sweep_rows_def by (rule keys_map_same) (simp add: row_key_def)

subsection \<open>The three outcomes of a join\<close>

lemma join_room_cases:
  "(\<exists>e. join_room d now rid uid dev code = (Inl e, d))
   \<or> (\<exists>rs. list_ex (is_row rid uid) (room_participants d)
        \<and> update_rooms (\<lambda>x. r_id x = rid)
             (\<lambda>x. x\<lparr>current_user_count :=
                       int (active_count (rejoin_rows now rid uid dev (room_participants d)) rid)\<rparr>)
             (rooms d) = Some rs
        \<and> join_room d now rid uid dev code
            = (Inr True, \<lparr>rooms = rs,
                 room_participants = rejoin_rows now rid uid dev (room_participants d)\<rparr>))
   \<or> (\<exists>r rs. find_room d rid = Some r
        \<and> \<not> list_ex (is_row rid uid) (room_participants d)
        \<and> current_user_count r < max_participants r
        \<and> update_rooms (\<lambda>x. r_id x = rid)
             (\<lambda>x. x\<lparr>current_user_count := current_user_count x + 1, updated_at := now\<rparr>)
             (rooms d) = Some rs
        \<and> join_room d now rid uid dev code
            = (Inr False, \<lparr>rooms = rs,
                 room_participants = room_participants d @ [new_row now rid uid dev]\<rparr>))"
  by (auto simp: join_room_def Let_def split: option.splits)

subsection \<open>A failed call leaves the ledger as it was\<close>

lemma join_room_fail_unchanged:
  "fst (join_room d now rid uid dev code) = Inl e \<Longrightarrow> snd (join_room d now rid uid dev code) = d"
  by (auto simp: join_room_def Let_def split: option.splits if_splits)

lemma leave_room_fail_unchanged:
  "fst (leave_room d now rid uid) = Inl e \<Longrightarrow> snd (leave_room d now rid uid) = d"
  by (auto simp: leave_room_def Let_def split: option.splits if_splits)

lemma room_heartbeat_fail_unchanged:
  "fst (room_heartbeat d now rid uid) = Inl e \<Longrightarrow> snd (room_heartbeat d now rid uid) = d"
  by (auto simp: room_heartbeat_def Let_def split: option.splits if_splits)

lemma cleanup_fail_unchanged:
  "fst (cleanup_inactive_participants d now) = Inl e \<Longrightarrow> snd (cleanup_inactive_participants d now) = d"
  by (auto simp: cleanup_inactive_participants_def Let_def split: option.splits if_splits)

lemma regenerate_fail_unchanged:
  "fst (regenerate_join_code d draw rid uid) = Inl e \<Longrightarrow> snd (regenerate_join_code d draw rid uid) = d"
  by (auto simp: regenerate_join_code_def Let_def split: option.splits if_splits)

subsection \<open>The store constraints are kept\<close>

lemma store_ok_update:
  "store_ok d \<Longrightarrow> update_rooms P f (rooms d) = Some rs \<Longrightarrow> store_ok \<lparr>rooms = rs, room_participants = ps\<rparr>"
  using update_rooms_store by (simp add: store_ok_def)

lemma store_ok_join: "store_ok d \<Longrightarrow> store_ok (snd (join_room d now rid uid dev code))"
  by (auto simp: join_room_def Let_def store_ok_update split: option.splits if_splits)

lemma store_ok_leave: "store_ok d \<Longrightarrow> store_ok (snd (leave_room d now rid uid))"
  by (auto simp: leave_room_def Let_def store_ok_update split: option.splits if_splits)

lemma store_ok_heartbeat: "store_ok d \<Longrightarrow> store_ok (snd (room_heartbeat d now rid uid))"
  by (auto simp: room_heartbeat_def store_ok_def)

lemma store_ok_cleanup: "store_ok d \<Longrightarrow> store_ok (snd (cleanup_inactive_participants d now))"
  by (auto simp: cleanup_inactive_participants_def Let_def store_ok_update split: option.splits if_splits)

lemma store_ok_regenerate: "store_ok d \<Longrightarrow> store_ok (snd (regenerate_join_code d draw rid uid))"
  using update_rooms_store
  by (auto simp: regenerate_join_code_def Let_def store_ok_def split: option.splits if_splits)

lemma keys_distinct_join: "keys_distinct d \<Longrightarrow> keys_distinct (snd (join_room d now rid uid dev code))"
  using join_room_cases[of d now rid uid dev code]
  by (auto simp: keys_distinct_def keys_rejoin_rows new_row_def row_key_def is_row_def list_ex_iff)

lemma keys_distinct_leave: "keys_distinct d \<Longrightarrow> keys_distinct (snd (leave_room d now rid uid))"
  by (auto simp: leave_room_def Let_def keys_distinct_def keys_leave_rows split: option.splits)

lemma keys_distinct_heartbeat: "keys_distinct d \<Longrightarrow> keys_distinct (snd (room_heartbeat d now rid uid))"
  by (auto simp: room_heartbeat_def keys_distinct_def keys_heartbeat_rows)

lemma keys_distinct_cleanup: "keys_distinct d \<Longrightarrow> keys_distinct (snd (cleanup_inactive_participants d now))"
  by (auto simp: cleanup_inactive_participants_def Let_def keys_distinct_def keys_sweep_rows
        split: option.splits)

subsection \<open>Exact counters are kept\<close>

lemma counts_exact_join:
  assumes "counts_exact d"
  shows "counts_exact (snd (join_room d now rid uid dev code))"
  using join_room_cases[of d now rid uid dev code]
proof (elim disjE exE conjE)
  fix e assume "join_room d now rid uid dev code = (Inl e, d)"
  with assms show ?thesis by simp
next
  fix rs
  assume u: "update_rooms (\<lambda>x. r_id x = rid)
             (\<lambda>x. x\<lparr>current_user_count :=
                       int (active_count (rejoin_rows now rid uid dev (room_participants d)) rid)\<rparr>)
             (rooms d) = Some rs"
    and j: "join_room d now rid uid dev code
            = (Inr True, \<lparr>rooms = rs,
                 room_participants = rejoin_rows now rid uid dev (room_participants d)\<rparr>)"
  from update_rooms_Some[OF u] assms show ?thesis
    by (auto simp: j counts_exact_def list_all_iff active_count_rejoin_rows_other)
next
  fix r rs
  assume u: "update_rooms (\<lambda>x. r_id x = rid)
             (\<lambda>x. x\<lparr>current_user_count := current_user_count x + 1, updated_at := now\<rparr>)
             (rooms d) = Some rs"
    and j: "join_room d now rid uid dev code
            = (Inr False, \<lparr>rooms = rs,
                 room_participants = room_participants d @ [new_row now rid uid dev]\<rparr>)"
  from update_rooms_Some[OF u] assms show ?thesis
    by (auto simp: j counts_exact_def list_all_iff active_count_append new_row_def)
qed

lemma counts_exact_leave:
  assumes "counts_exact d" and "keys_distinct d"
  shows "counts_exact (snd (leave_room d now rid uid))"
proof (cases "has_active_row d rid uid")
  case False
  with assms show ?thesis by (simp add: leave_room_def)
next
  case True
  then have ex: "\<exists>p\<in>set (room_participants d). is_row rid uid p \<and> is_active p"
    by (simp add: has_active_row_iff)
  have dec: "Suc (active_count (leave_rows now rid uid (room_participants d)) rid)
               = active_count (room_participants d) rid"
    using active_count_leave_rows[OF _ ex] assms(2) by (simp add: keys_distinct_def)
  show ?thesis
  proof (cases "update_rooms (\<lambda>x. r_id x = rid)
                   (\<lambda>x. x\<lparr>current_user_count := max 0 (current_user_count x - 1),
                           updated_at := now\<rparr>) (rooms d)")
    case None
    with True assms show ?thesis by (simp add: leave_room_def)
  next
    case (Some rs)
    from update_rooms_Some[OF Some] assms(1) dec True Some show ?thesis
      by (auto simp: leave_room_def counts_exact_def list_all_iff active_count_leave_rows_other)
  qed
qed

lemma counts_exact_heartbeat:
  "counts_exact d \<Longrightarrow> counts_exact (snd (room_heartbeat d now rid uid))"
  by (auto simp: room_heartbeat_def counts_exact_def active_count_heartbeat_rows)

lemma counts_exact_cleanup:
  "counts_exact d \<Longrightarrow> counts_exact (snd (cleanup_inactive_participants d now))"
  by (auto simp: cleanup_inactive_participants_def Let_def counts_exact_def list_all_iff
        split: option.splits dest!: update_rooms_Some)

lemma counts_exact_regenerate:
  "counts_exact d \<Longrightarrow> counts_exact (snd (regenerate_join_code d draw rid uid))"
  by (auto simp: regenerate_join_code_def Let_def counts_exact_def list_all_iff
        split: option.splits dest!: update_rooms_Some)

lemma ledger_ok_exec: "ledger_ok d \<Longrightarrow> ledger_ok (exec d x)"
proof -
  assume ok: "ledger_ok d"
  obtain now o' where x: "x = (now, o')" by (cases x)
  show ?thesis
  proof (cases o')
    case (Join rid uid dev code)
    with ok x show ?thesis
      by (simp add: ledger_ok_def store_ok_join keys_distinct_join counts_exact_join)
  next
    case (Leave rid uid)
    with ok x show ?thesis
      by (simp add: ledger_ok_def store_ok_leave keys_distinct_leave counts_exact_leave)
  next
    case (Heartbeat rid uid)
    with ok x show ?thesis
      by (simp add: ledger_ok_def store_ok_heartbeat keys_distinct_heartbeat counts_exact_heartbeat)
  next
    case Sweep
    with ok x show ?thesis
      by (simp add: ledger_ok_def store_ok_cleanup keys_distinct_cleanup counts_exact_cleanup)
  qed
qed

lemma ledger_ok_run: "ledger_ok d \<Longrightarrow> ledger_ok (run d ops)"
  unfolding run_def by (induction ops arbitrary: d) (simp_all add: ledger_ok_exec)

lemma ledger_ok_bound:
  "ledger_ok d \<Longrightarrow> r \<in> set (rooms d) \<Longrightarrow> int (active_count (room_participants d) (r_id r)) \<le> 5"
  by (auto simp: ledger_ok_def store_ok_def counts_exact_def list_all_iff count_check_def)

lemma ledger_ok_fresh: "ledger_ok (fresh_ledger n)"
  by (simp add: ledger_ok_def store_ok_def keys_distinct_def counts_exact_def fresh_ledger_def
        fresh_room_def count_check_def active_count_def)

section \<open>Occupancy and capacity\<close>

lemma new_membership_within_capacity:
  assumes "ledger_ok e" and "find_room e rid = Some r"
    and "fst (join_room e now rid uid dev code) = Inr False"
  shows "int (active_count (room_participants (snd (join_room e now rid uid dev code))) rid)
           \<le> max_participants r"
  using join_room_cases[of e now rid uid dev code]
proof (elim disjE exE conjE)
  fix x assume "join_room e now rid uid dev code = (Inl x, e)"
  with assms(3) show ?thesis by simp
next
  fix rs
  assume "join_room e now rid uid dev code
            = (Inr True, \<lparr>rooms = rs,
                 room_participants = rejoin_rows now rid uid dev (room_participants e)\<rparr>)"
  with assms(3) show ?thesis by simp
next
  fix r' rs
  assume f: "find_room e rid = Some r'"
    and lt: "current_user_count r' < max_participants r'"
    and j: "join_room e now rid uid dev code
            = (Inr False, \<lparr>rooms = rs,
                 room_participants = room_participants e @ [new_row now rid uid dev]\<rparr>)"
  from f assms(2) have r: "r' = r" by simp
  have "r \<in> set (rooms e) \<and> r_id r = rid"
    using find_Some_mem[of "\<lambda>x. r_id x = rid" "rooms e" r] assms(2) by (simp add: find_room_def)
  with assms(1) have "current_user_count r = int (active_count (room_participants e) rid)"
    by (auto simp: ledger_ok_def counts_exact_def list_all_iff)
  with lt r show ?thesis
    by (simp add: j active_count_append new_row_def)
qed

text \<open>
  C1 (as amended). Starting from a ledger whose counters are exact (a fresh, empty room
  is one), after any sequence of join, leave, heartbeat and sweep calls no room holds
  more than five active rows: the recount of a rejoin and the increment of a new join
  both pass through the check on \<^verbatim>\<open>current_user_count\<close>. Hence the active rows
  never exceed the capacity \<open>N\<close> of a room with \<open>N \<ge> 5\<close>, the capacity every
  created room gets. Whatever the capacity, a join that creates a new membership leaves at
  most \<open>N\<close> active rows in the room; only the rejoin of a former member, which tests
  no capacity, can leave more.
\<close>

theorem active_rows_within_store_cap:
  assumes "ledger_ok d" and "r \<in> set (rooms (run d ops))"
  shows "int (active_count (room_participants (run d ops)) (r_id r)) \<le> 5
         \<and> (5 \<le> max_participants r
              \<longrightarrow> int (active_count (room_participants (run d ops)) (r_id r)) \<le> max_participants r)
         \<and> (find_room (run d ops) rid = Some r'
              \<and> fst (join_room (run d ops) now rid uid dev code) = Inr False
              \<longrightarrow> int (active_count
                         (room_participants (snd (join_room (run d ops) now rid uid dev code))) rid)
                    \<le> max_participants r')"
  using ledger_ok_bound[OF ledger_ok_run[OF assms(1)] assms(2)]
    new_membership_within_capacity[OF ledger_ok_run[OF assms(1)], of ops rid r' now uid dev code]
  by simp

text \<open>
  An evening in a room for five: when member 10 comes back to the full room the store
  refuses the recount to 6, and five rows stay active. In the room for two, member 12
  takes the seat that 10 left: two active rows.
\<close>

theorem active_rows_within_store_cap_witness:
  "ledger_ok (fresh_ledger 5)
   \<and> (fresh_room 5)\<lparr>current_user_count := 5, updated_at := 7\<rparr>
        \<in> set (rooms (run (fresh_ledger 5) busy_evening))
   \<and> int (active_count (room_participants (run (fresh_ledger 5) busy_evening)) 1) \<le> 5
   \<and> 5 \<le> max_participants ((fresh_room 5)\<lparr>current_user_count := 5, updated_at := 7\<rparr>)
   \<and> ledger_ok (fresh_ledger 2)
   \<and> find_room (run (fresh_ledger 2) (take 3 musical_chairs)) 1
        = Some ((fresh_room 2)\<lparr>current_user_count := 1, updated_at := 3\<rparr>)
   \<and> fst (join_room (run (fresh_ledger 2) (take 3 musical_chairs)) 4 1 12 None code1) = Inr False
   \<and> int (active_count (room_participants
              (snd (join_room (run (fresh_ledger 2) (take 3 musical_chairs)) 4 1 12 None code1))) 1)
        \<le> max_participants ((fresh_room 2)\<lparr>current_user_count := 1, updated_at := 3\<rparr>)"
proof -
  have a: "ledger_ok (fresh_ledger 5)" by (rule ledger_ok_fresh)
  have b: "(fresh_room 5)\<lparr>current_user_count := 5, updated_at := 7\<rparr>
        \<in> set (rooms (run (fresh_ledger 5) busy_evening))" by code_simp
  have c: "r_id ((fresh_room 5)\<lparr>current_user_count := 5, updated_at := 7\<rparr>) = 1"
    by (simp add: fresh_room_def)
  have e: "5 \<le> max_participants ((fresh_room 5)\<lparr>current_user_count := 5, updated_at := 7\<rparr>)"
    by (simp add: fresh_room_def)
  have a': "ledger_ok (fresh_ledger 2)" by (rule ledger_ok_fresh)
  have b': "(fresh_room 2)\<lparr>current_user_count := 1, updated_at := 3\<rparr>
        \<in> set (rooms (run (fresh_ledger 2) (take 3 musical_chairs)))" by code_simp
  have f: "find_room (run (fresh_ledger 2) (take 3 musical_chairs)) 1
        = Some ((fresh_room 2)\<lparr>current_user_count := 1, updated_at := 3\<rparr>)" by code_simp
  have g: "fst (join_room (run (fresh_ledger 2) (take 3 musical_chairs)) 4 1 12 None code1)
        = Inr False" by code_simp
  have s1: "int (active_count (room_participants (run (fresh_ledger 5) busy_evening)) 1) \<le> 5"
    using active_rows_within_store_cap[OF a b, of 1 "fresh_room 5" 1 10 None None] c by simp
  have s2: "int (active_count (room_participants
              (snd (join_room (run (fresh_ledger 2) (take 3 musical_chairs)) 4 1 12 None code1))) 1)
        \<le> max_participants ((fresh_room 2)\<lparr>current_user_count := 1, updated_at := 3\<rparr>)"
    using active_rows_within_store_cap[OF a' b',
        of 1 "(fresh_room 2)\<lparr>current_user_count := 1, updated_at := 3\<rparr>" 4 12 None code1] f g
    by simp
  from a b e a' f g s1 s2 show ?thesis by simp
qed

text \<open>
  C1 as stated fails in a room of capacity 2: members 10 and 11 join, 10 leaves, 12
  takes the free seat, and the rejoin of 10, which checks no capacity, makes three
  active rows.
\<close>

theorem rejoin_overfills_small_room:
  "\<not> within_capacity (run (fresh_ledger 2) musical_chairs)"
  by code_simp

section \<open>The check constraint on the occupancy counter\<close>

lemma store_ok_exec: "store_ok d \<Longrightarrow> store_ok (exec d x)"
proof -
  assume ok: "store_ok d"
  obtain now o' where x: "x = (now, o')" by (cases x)
  from ok x show ?thesis
    by (cases o') (simp_all add: store_ok_join store_ok_leave store_ok_heartbeat store_ok_cleanup)
qed

lemma store_ok_run: "store_ok d \<Longrightarrow> store_ok (run d ops)"
  unfolding run_def by (induction ops arbitrary: d) (simp_all add: store_ok_exec)

lemma update_rooms_rejects:
  "r \<in> set rs \<Longrightarrow> P r \<Longrightarrow> \<not> count_check (current_user_count (f r)) \<Longrightarrow> update_rooms P f rs = None"
  by (auto simp: update_rooms_def list_all_iff)

text \<open>
  C10. In a ledger whose room rows satisfy \<open>0 \<le> current_user_count \<le> 5\<close>, each of
  the five stored functions leaves a ledger that satisfies it again, and so does every
  run of them; a call that fails, the abort on the check included, leaves the ledger as it
  was; and an update of \<^verbatim>\<open>rooms\<close> that would write a counter outside the range is
  rejected as a whole.
\<close>

theorem counter_check_kept:
  assumes "store_ok d"
  shows "store_ok (snd (join_room d now rid uid dev code))
       \<and> store_ok (snd (leave_room d now rid uid))
       \<and> store_ok (snd (room_heartbeat d now rid uid))
       \<and> store_ok (snd (cleanup_inactive_participants d now))
       \<and> store_ok (snd (regenerate_join_code d draw rid uid))
       \<and> (\<forall>r\<in>set (rooms (run d ops)). 0 \<le> current_user_count r \<and> current_user_count r \<le> 5)
       \<and> (\<forall>e. fst (join_room d now rid uid dev code) = Inl e
              \<longrightarrow> snd (join_room d now rid uid dev code) = d)
       \<and> (\<forall>e. fst (leave_room d now rid uid) = Inl e \<longrightarrow> snd (leave_room d now rid uid) = d)
       \<and> (\<forall>e. fst (room_heartbeat d now rid uid) = Inl e
              \<longrightarrow> snd (room_heartbeat d now rid uid) = d)
       \<and> (\<forall>e. fst (cleanup_inactive_participants d now) = Inl e
              \<longrightarrow> snd (cleanup_inactive_participants d now) = d)
       \<and> (\<forall>e. fst (regenerate_join_code d draw rid uid) = Inl e
              \<longrightarrow> snd (regenerate_join_code d draw rid uid) = d)
       \<and> (\<forall>P f. (\<exists>r\<in>set (rooms d). P r \<and> \<not> count_check (current_user_count (f r)))
              \<longrightarrow> update_rooms P f (rooms d) = None)"
proof -
  have "\<forall>r\<in>set (rooms (run d ops)). 0 \<le> current_user_count r \<and> current_user_count r \<le> 5"
    using store_ok_run[OF assms, of ops] by (simp add: store_ok_def list_all_iff count_check_def)
  moreover have "\<forall>P f. (\<exists>r\<in>set (rooms d). P r \<and> \<not> count_check (current_user_count (f r)))
              \<longrightarrow> update_rooms P f (rooms d) = None"
    using update_rooms_rejects by blast
  ultimately show ?thesis
    using assms
    by (simp add: store_ok_join store_ok_leave store_ok_heartbeat store_ok_cleanup
          store_ok_regenerate join_room_fail_unchanged leave_room_fail_unchanged
          room_heartbeat_fail_unchanged cleanup_fail_unchanged regenerate_fail_unchanged)
qed

text \<open>
  The full room for five: the rejoin of member 10 would write a counter of 6; it fails
  on the check and nothing changes.
\<close>

theorem counter_check_kept_witness:
  "store_ok full_house
   \<and> fst (join_room full_house 10 1 10 None None) = Inl Check_violation
   \<and> snd (join_room full_house 10 1 10 None None) = full_house
   \<and> store_ok (snd (join_room full_house 10 1 10 None None))"
proof -
  have a: "store_ok full_house" by code_simp
  have b: "fst (join_room full_house 10 1 10 None None) = Inl Check_violation" by code_simp
  from counter_check_kept[OF a, of 10 1 10 None None] a b show ?thesis by blast
qed

section \<open>Derived permissions\<close>

lemma no_active_row_no_data:
  "\<not> has_active_row d rid u \<Longrightarrow>
     filter (\<lambda>p. room_id p = rid \<and> user_id p = u \<and> is_active p) (room_participants d) = []"
  by (auto simp: has_active_row_def list_ex_iff is_row_def filter_empty_conv)

lemma observer_role:
  "\<not> has_active_row d rid u \<Longrightarrow>
     fetchRoomRole d roles rid u
       = (if isOrganizer roles then Some RoomOrganizer
          else if isJudge roles then Some RoomJudge else None)"
  by (simp add: fetchRoomRole_def no_active_row_no_data maybeSingle_def)

text \<open>
  C9 (as amended). The four permissions are the stated functions of the room role. A
  caller without an active row in the room gets the room role organizer when they hold
  the global organizer role, and the room role judge when they hold the global judge role
  and not the organizer role; both are read-only.
\<close>

theorem derived_permissions:
  assumes "p = useRoomRole d roles roomId user"
  shows "canEdit p = (roomRole p = Some RoomMember)
       \<and> canComment p = (roomRole p \<in> {Some RoomMember, Some RoomOrganizer})
       \<and> canKick p = (roomRole p = Some RoomOrganizer)
       \<and> isReadOnly p = (roomRole p \<in> {Some RoomOrganizer, Some RoomJudge})
       \<and> (roomId = Some rid \<and> user = Some u \<and> \<not> has_active_row d rid u \<and> isOrganizer roles
            \<longrightarrow> roomRole p = Some RoomOrganizer \<and> isReadOnly p)
       \<and> (roomId = Some rid \<and> user = Some u \<and> \<not> has_active_row d rid u \<and> isJudge roles
              \<and> \<not> isOrganizer roles
            \<longrightarrow> roomRole p = Some RoomJudge \<and> isReadOnly p)"
  using assms by (auto simp: useRoomRole_def Let_def observer_role)

text \<open>
  A judge who is not a member of room 1 observes it as judge, an organizer as organizer.
\<close>

theorem derived_permissions_witness:
  "\<not> has_active_row full_house 1 99 \<and> isJudge [AppJudge] \<and> \<not> isOrganizer [AppJudge]
   \<and> roomRole (useRoomRole full_house [AppJudge] (Some 1) (Some 99)) = Some RoomJudge
   \<and> isReadOnly (useRoomRole full_house [AppJudge] (Some 1) (Some 99))
   \<and> isOrganizer [AppOrganizer]
   \<and> roomRole (useRoomRole full_house [AppOrganizer] (Some 1) (Some 99)) = Some RoomOrganizer
   \<and> isReadOnly (useRoomRole full_house [AppOrganizer] (Some 1) (Some 99))
   \<and> canKick (useRoomRole full_house [AppOrganizer] (Some 1) (Some 99))"
proof -
  have a: "\<not> has_active_row full_house 1 99" by code_simp
  have b: "isJudge [AppJudge] \<and> \<not> isOrganizer [AppJudge]"
    by (simp add: isJudge_def isOrganizer_def)
  have c: "isOrganizer [AppOrganizer]" by (simp add: isOrganizer_def)
  have s1: "roomRole (useRoomRole full_house [AppJudge] (Some 1) (Some 99)) = Some RoomJudge
          \<and> isReadOnly (useRoomRole full_house [AppJudge] (Some 1) (Some 99))"
    using derived_permissions[where p = "useRoomRole full_house [AppJudge] (Some 1) (Some 99)"
      and d = full_house and roles = "[AppJudge]" and roomId = "Some 1" and user = "Some 99"
      and rid = 1 and u = 99, OF refl] a b
    by blast
  have s2: "roomRole (useRoomRole full_house [AppOrganizer] (Some 1) (Some 99)) = Some RoomOrganizer
          \<and> isReadOnly (useRoomRole full_house [AppOrganizer] (Some 1) (Some 99))
          \<and> canKick (useRoomRole full_house [AppOrganizer] (Some 1) (Some 99))"
    using derived_permissions[where p = "useRoomRole full_house [AppOrganizer] (Some 1) (Some 99)"
      and d = full_house and roles = "[AppOrganizer]" and roomId = "Some 1" and user = "Some 99"
      and rid = 1 and u = 99, OF refl] a c
    by simp
  from a b c s1 s2 show ?thesis by simp
qed

text \<open>
  C9 as stated fails for a caller who holds both global roles: without an active row
  they hold the judge role, yet the room role is organizer, which the resolver tests first.
\<close>

theorem judge_who_is_organizer:
  "\<not> has_active_row full_house 1 99 \<and> isJudge [AppOrganizer, AppJudge]
   \<and> roomRole (useRoomRole full_house [AppOrganizer, AppJudge] (Some 1) (Some 99)) \<noteq> Some RoomJudge"
  by code_simp

section \<open>Leaving a room\<close>

lemma leave_rows_inactive:
  assumes "p \<in> set (leave_rows now rid uid ps)" and "is_row rid uid p"
  shows "\<not> is_active p"
proof -
  from assms(1) obtain q where q: "q \<in> set ps"
    and p: "p = (if is_row rid uid q then q\<lparr>is_active := False, last_seen := now\<rparr> else q)"
    by (auto simp: leave_rows_def)
  show ?thesis
  proof (cases "is_row rid uid q")
    case True
    with p show ?thesis by simp
  next
    case False
    with p assms(2) show ?thesis by simp
  qed
qed

lemma leave_rows_others:
  "filter (\<lambda>p. \<not> is_row rid uid p) (leave_rows now rid uid ps) = filter (\<lambda>p. \<not> is_row rid uid p) ps"
  by (induction ps) (auto simp: leave_rows_def is_row_def)

lemma leave_update_passes:
  "store_ok d \<Longrightarrow>
   update_rooms (\<lambda>x. r_id x = rid)
      (\<lambda>x. x\<lparr>current_user_count := max 0 (current_user_count x - 1), updated_at := now\<rparr>) (rooms d)
   = Some (map (\<lambda>x. if r_id x = rid
                     then x\<lparr>current_user_count := max 0 (current_user_count x - 1), updated_at := now\<rparr>
                     else x) (rooms d))"
  by (auto simp: update_rooms_def store_ok_def list_all_iff count_check_def)

text \<open>
  C5. \<^verbatim>\<open>leave_room\<close> answers ``User not in room'' exactly when the identity has no
  active row in the room, and then changes nothing. Otherwise (the room rows being within
  the check on their counter, as the store keeps them) it succeeds: the identity's row is
  inactive afterwards, the rows of other identities are untouched, no row is added or
  removed, and the room's row gets the counter \<open>max 0 (current_user_count - 1)\<close> and
  the timestamp of the call.
\<close>

theorem leave_room_effect:
  "(fst (leave_room d now rid uid) = Inl User_not_in_room) = (\<not> has_active_row d rid uid)
   \<and> (\<not> has_active_row d rid uid \<longrightarrow> snd (leave_room d now rid uid) = d)
   \<and> (has_active_row d rid uid \<and> store_ok d \<longrightarrow>
         fst (leave_room d now rid uid) = Inr ()
       \<and> (\<forall>p\<in>set (room_participants (snd (leave_room d now rid uid))).
            is_row rid uid p \<longrightarrow> \<not> is_active p)
       \<and> filter (\<lambda>p. \<not> is_row rid uid p) (room_participants (snd (leave_room d now rid uid)))
           = filter (\<lambda>p. \<not> is_row rid uid p) (room_participants d)
       \<and> map row_key (room_participants (snd (leave_room d now rid uid)))
           = map row_key (room_participants d)
       \<and> rooms (snd (leave_room d now rid uid))
           = map (\<lambda>x. if r_id x = rid
                       then x\<lparr>current_user_count := max 0 (current_user_count x - 1),
                              updated_at := now\<rparr>
                       else x) (rooms d))"
proof (cases "has_active_row d rid uid")
  case False
  then show ?thesis by (simp add: leave_room_def)
next
  case True
  have neq: "fst (leave_room d now rid uid) \<noteq> Inl User_not_in_room"
    using True by (simp add: leave_room_def Let_def split: option.splits)
  show ?thesis
  proof (cases "store_ok d")
    case False
    with True neq show ?thesis by simp
  next
    case ok: True
    have l: "leave_room d now rid uid
       = (Inr (), \<lparr>rooms = map (\<lambda>x. if r_id x = rid
                       then x\<lparr>current_user_count := max 0 (current_user_count x - 1),
                              updated_at := now\<rparr>
                       else x) (rooms d),
                  room_participants = leave_rows now rid uid (room_participants d)\<rparr>)"
      using True by (simp add: leave_room_def Let_def leave_update_passes[OF ok])
    have i: "\<forall>p\<in>set (leave_rows now rid uid (room_participants d)). is_row rid uid p \<longrightarrow> \<not> is_active p"
      using leave_rows_inactive by blast
    show ?thesis using True ok neq i
      by (simp add: l leave_rows_others keys_leave_rows)
  qed
qed

text \<open>In the full room member 11 leaves; the former member 10 cannot leave again.\<close>

theorem leave_room_effect_witness:
  "has_active_row full_house 1 11 \<and> store_ok full_house
   \<and> fst (leave_room full_house 20 1 11) = Inr ()
   \<and> rooms (snd (leave_room full_house 20 1 11))
       = [(fresh_room 5)\<lparr>current_user_count := 4, updated_at := 20\<rparr>]
   \<and> \<not> has_active_row full_house 1 10
   \<and> fst (leave_room full_house 20 1 10) = Inl User_not_in_room
   \<and> snd (leave_room full_house 20 1 10) = full_house"
proof -
  have a: "has_active_row full_house 1 11" by code_simp
  have b: "store_ok full_house" by code_simp
  have c: "\<not> has_active_row full_house 1 10" by code_simp
  have e: "map (\<lambda>x. if r_id x = 1
                       then x\<lparr>current_user_count := max 0 (current_user_count x - 1),
                              updated_at := 20\<rparr>
                       else x) (rooms full_house)
           = [(fresh_room 5)\<lparr>current_user_count := 4, updated_at := 20\<rparr>]" by code_simp
  from leave_room_effect[of full_house 20 1 11] leave_room_effect[of full_house 20 1 10] a b c e
  show ?thesis by simp
qed

section \<open>The join code of a private room\<close>

text \<open>
  C4. A join that creates a new membership in an active private room: a caller other than
  the creator whose code is absent or differs from the room's code gets ``Invalid join
  code'' and the ledger is unchanged; with the room's code the call goes on to the
  capacity test, so it ends as a full room, as a rejected counter or as a new membership;
  for the creator the supplied code plays no part.
\<close>

theorem private_join_code:
  assumes "find_room d rid = Some r" and "status r = Active"
    and "\<not> list_ex (is_row rid uid) (room_participants d)" and "is_private r"
  shows "(created_by r \<noteq> uid \<and> (code = None \<or> code \<noteq> Some (join_code r))
            \<longrightarrow> join_room d now rid uid dev code = (Inl Invalid_join_code, d))
       \<and> (created_by r \<noteq> uid \<and> code = Some (join_code r)
            \<longrightarrow> fst (join_room d now rid uid dev code) \<in> {Inl Room_full, Inl Check_violation, Inr False})
       \<and> (created_by r = uid
            \<longrightarrow> fst (join_room d now rid uid dev code) \<in> {Inl Room_full, Inl Check_violation, Inr False}
              \<and> join_room d now rid uid dev code = join_room d now rid uid dev None)"
  using assms by (auto simp: join_room_def Let_def split: option.splits)

text \<open>User 11 and the creator 10 at the door of the fresh private room.\<close>

theorem private_join_code_witness:
  "find_room (fresh_ledger 5) 1 = Some (fresh_room 5) \<and> status (fresh_room 5) = Active
   \<and> \<not> list_ex (is_row 1 11) (room_participants (fresh_ledger 5))
   \<and> \<not> list_ex (is_row 1 10) (room_participants (fresh_ledger 5))
   \<and> is_private (fresh_room 5) \<and> created_by (fresh_room 5) \<noteq> 11 
   \<and> join_room (fresh_ledger 5) 3 1 11 None (Some ''ABCDEG'')
        = (Inl Invalid_join_code, fresh_ledger 5)
   \<and> join_room (fresh_ledger 5) 3 1 11 None None = (Inl Invalid_join_code, fresh_ledger 5)
   \<and> fst (join_room (fresh_ledger 5) 3 1 11 None (Some (join_code (fresh_room 5))))
        \<in> {Inl Room_full, Inl Check_violation, Inr False}
   \<and> created_by (fresh_room 5) = 10
   \<and> join_room (fresh_ledger 5) 3 1 10 None (Some ''XXXXXX'') = join_room (fresh_ledger 5) 3 1 10 None None"
proof -
  have a: "find_room (fresh_ledger 5) 1 = Some (fresh_room 5)" by code_simp
  have b: "status (fresh_room 5) = Active" "is_private (fresh_room 5)" "created_by (fresh_room 5) \<noteq> 11"
     "created_by (fresh_room 5) = 10" "Some ''ABCDEG'' \<noteq> Some (join_code (fresh_room 5))"
    by (simp_all add: fresh_room_def)
  have c: "\<not> list_ex (is_row 1 11) (room_participants (fresh_ledger 5))"
     "\<not> list_ex (is_row 1 10) (room_participants (fresh_ledger 5))"
    by (simp_all add: fresh_ledger_def)
  from private_join_code[OF a b(1) c(1) b(2), of "Some ''ABCDEG''" 3 None]
       private_join_code[OF a b(1) c(1) b(2), of None 3 None]
       private_join_code[OF a b(1) c(1) b(2), of "Some (join_code (fresh_room 5))" 3 None]
       private_join_code[OF a b(1) c(2) b(2), of "Some ''XXXXXX''" 3 None]
       a b c
  show ?thesis by simp
qed

section \<open>Rejoining\<close>

lemma find_room_updated:
  assumes "\<And>x. r_id (f x) = r_id x"
  shows "find (\<lambda>r. r_id r = rid') (map (\<lambda>x. if P x then f x else x) rs)
           = map_option (\<lambda>x. if P x then f x else x) (find (\<lambda>r. r_id r = rid') rs)"
  by (induction rs) (simp_all add: assms)

lemma rejoin_rows_has_row:
  "list_ex (is_row rid uid) (rejoin_rows now rid uid dev ps) = list_ex (is_row rid uid) ps"
  by (induction ps) (simp_all add: rejoin_rows_def is_row_def)

lemma rejoin_rows_member:
  assumes "p \<in> set (rejoin_rows now rid uid dev ps)" and "is_row rid uid p"
  shows "is_active p \<and> last_seen p = now \<and> (\<forall>v. dev = Some v \<longrightarrow> device_id p = Some v)"
proof -
  from assms(1) obtain q where "q \<in> set ps"
    and p: "p = (if is_row rid uid q
                 then q\<lparr>is_active := True, last_seen := now,
                        device_id := (case dev of Some v \<Rightarrow> Some v | None \<Rightarrow> device_id q)\<rparr>
                 else q)"
    by (auto simp: rejoin_rows_def)
  show ?thesis
  proof (cases "is_row rid uid q")
    case True
    with p show ?thesis by simp
  next
    case False
    with p assms(2) show ?thesis by simp
  qed
qed

lemma rejoin_rows_others:
  "filter (\<lambda>p. \<not> is_row rid uid p) (rejoin_rows now rid uid dev ps)
     = filter (\<lambda>p. \<not> is_row rid uid p) ps"
  by (induction ps) (auto simp: rejoin_rows_def is_row_def)

lemma active_count_rejoin_twice:
  "active_count (rejoin_rows now' rid uid dev' (rejoin_rows now rid uid dev ps)) rid'
     = active_count (rejoin_rows now rid uid dev ps) rid'"
  by (induction ps) (auto simp: rejoin_rows_def active_count_def is_row_def)

lemma recount_passes:
  "n \<le> 5 \<Longrightarrow>
   update_rooms (\<lambda>x. r_id x = rid) (\<lambda>x. x\<lparr>current_user_count := int n\<rparr>) rs
     = Some (map (\<lambda>x. if r_id x = rid then x\<lparr>current_user_count := int n\<rparr> else x) rs)"
  by (simp add: update_rooms_def list_all_iff count_check_def)

lemma recount_fails:
  "find (\<lambda>r. r_id r = rid) rs = Some r \<Longrightarrow> 5 < n \<Longrightarrow>
   update_rooms (\<lambda>x. r_id x = rid) (\<lambda>x. x\<lparr>current_user_count := int n\<rparr>) rs = None"
  by (auto simp: update_rooms_def list_all_iff count_check_def dest!: find_Some_mem)

lemma recount_twice:
  "map (\<lambda>x. if r_id x = rid then x\<lparr>current_user_count := c\<rparr> else x)
     (map (\<lambda>x. if r_id x = rid then x\<lparr>current_user_count := c\<rparr> else x) rs)
   = map (\<lambda>x. if r_id x = rid then x\<lparr>current_user_count := c\<rparr> else x) rs"
  by (induction rs) simp_all

lemma recount_exact:
  assumes "x \<in> set (map (\<lambda>x. if r_id x = rid then x\<lparr>current_user_count := c\<rparr> else x) rs)"
    and "r_id x = rid"
  shows "current_user_count x = c"
proof -
  from assms(1) obtain q where "q \<in> set rs"
    and x: "x = (if r_id q = rid then q\<lparr>current_user_count := c\<rparr> else q)"
    by auto
  from x assms(2) show ?thesis by (cases "r_id q = rid") simp_all
qed

lemma rejoin_succeeds:
  assumes "find_room d rid = Some r" and "status r = Active"
    and "list_ex (is_row rid uid) (room_participants d)"
    and "active_count (rejoin_rows now rid uid dev (room_participants d)) rid \<le> 5"
  shows "join_room d now rid uid dev code
     = (Inr True,
        \<lparr>rooms = map (\<lambda>x. if r_id x = rid
                    then x\<lparr>current_user_count :=
                      int (active_count (rejoin_rows now rid uid dev (room_participants d)) rid)\<rparr>
                    else x) (rooms d),
         room_participants = rejoin_rows now rid uid dev (room_participants d)\<rparr>)"
  using assms by (simp add: join_room_def Let_def recount_passes)

lemma rejoin_aborts:
  assumes "find_room d rid = Some r" and "status r = Active"
    and "list_ex (is_row rid uid) (room_participants d)"
    and "5 < active_count (rejoin_rows now rid uid dev (room_participants d)) rid"
  shows "join_room d now rid uid dev code = (Inl Check_violation, d)"
  using assms recount_fails[of rid "rooms d" r]
  by (simp add: join_room_def Let_def find_room_def)

text \<open>
  C3 (as amended). An identity that already has a row in an active room, active or not,
  joins again. If the recount of the room's active rows after the reactivation is at
  most 5, the call succeeds with \<open>already_member = true\<close>: the identity's row is
  active, its last-seen is the time of the call and a supplied device id is adopted; the
  room's counter is the exact number of its active rows; the rows keep their keys, so no
  second row for the identity appears, and the rows of other identities are untouched;
  neither the capacity nor the join code is consulted. A second join right after it
  succeeds as well and leaves the room rows, the counter among them, as they are. If the
  recount exceeds 5, the store rejects it and the call changes nothing.
\<close>

theorem rejoin_reactivates:
  assumes "find_room d rid = Some r" and "status r = Active"
    and "list_ex (is_row rid uid) (room_participants d)"
  shows "(active_count (rejoin_rows now rid uid dev (room_participants d)) rid \<le> 5 \<longrightarrow>
            fst (join_room d now rid uid dev code) = Inr True
          \<and> (\<forall>p\<in>set (room_participants (snd (join_room d now rid uid dev code))).
                is_row rid uid p \<longrightarrow>
                  is_active p \<and> last_seen p = now \<and> (\<forall>v. dev = Some v \<longrightarrow> device_id p = Some v))
          \<and> (\<forall>x\<in>set (rooms (snd (join_room d now rid uid dev code))).
                r_id x = rid \<longrightarrow>
                  current_user_count x
                    = int (active_count (room_participants (snd (join_room d now rid uid dev code))) rid))
          \<and> map row_key (room_participants (snd (join_room d now rid uid dev code)))
                = map row_key (room_participants d)
          \<and> filter (\<lambda>p. \<not> is_row rid uid p) (room_participants (snd (join_room d now rid uid dev code)))
                = filter (\<lambda>p. \<not> is_row rid uid p) (room_participants d)
          \<and> fst (join_room (snd (join_room d now rid uid dev code)) now' rid uid dev' code') = Inr True
          \<and> rooms (snd (join_room (snd (join_room d now rid uid dev code)) now' rid uid dev' code'))
                = rooms (snd (join_room d now rid uid dev code)))
       \<and> (5 < active_count (rejoin_rows now rid uid dev (room_participants d)) rid \<longrightarrow>
            join_room d now rid uid dev code = (Inl Check_violation, d))"
proof (cases "active_count (rejoin_rows now rid uid dev (room_participants d)) rid \<le> 5")
  case False
  then show ?thesis using rejoin_aborts[OF assms] by simp
next
  case True
  define ps where "ps = rejoin_rows now rid uid dev (room_participants d)"
  define rs where "rs = map (\<lambda>x. if r_id x = rid
                    then x\<lparr>current_user_count := int (active_count ps rid)\<rparr> else x) (rooms d)"
  define d1 where "d1 = \<lparr>rooms = rs, room_participants = ps\<rparr>"
  have j1: "join_room d now rid uid dev code = (Inr True, d1)"
    using rejoin_succeeds[OF assms True] by (simp add: d1_def rs_def ps_def)
  have members: "\<forall>p\<in>set ps. is_row rid uid p \<longrightarrow>
                  is_active p \<and> last_seen p = now \<and> (\<forall>v. dev = Some v \<longrightarrow> device_id p = Some v)"
    unfolding ps_def using rejoin_rows_member by blast
  have exact: "\<forall>x\<in>set rs. r_id x = rid \<longrightarrow> current_user_count x = int (active_count ps rid)"
    unfolding rs_def using recount_exact by blast
  have keys: "map row_key ps = map row_key (room_participants d)"
    by (simp add: ps_def keys_rejoin_rows)
  have others: "filter (\<lambda>p. \<not> is_row rid uid p) ps
                  = filter (\<lambda>p. \<not> is_row rid uid p) (room_participants d)"
    by (simp add: ps_def rejoin_rows_others)
  have f1: "find_room d1 rid
              = Some (if r_id r = rid then r\<lparr>current_user_count := int (active_count ps rid)\<rparr> else r)"
    using assms(1) by (simp add: find_room_def d1_def rs_def find_room_updated)
  have s1: "status (if r_id r = rid then r\<lparr>current_user_count := int (active_count ps rid)\<rparr> else r) = Active"
    using assms(2) by simp
  have e1: "list_ex (is_row rid uid) (room_participants d1)"
    using assms(3) by (simp add: d1_def ps_def rejoin_rows_has_row)
  have c1: "active_count (rejoin_rows now' rid uid dev' (room_participants d1)) rid = active_count ps rid"
    by (simp add: d1_def ps_def active_count_rejoin_twice)
  have le1: "active_count (rejoin_rows now' rid uid dev' (room_participants d1)) rid \<le> 5"
    using True c1 by (simp add: ps_def)
  have j2: "fst (join_room d1 now' rid uid dev' code') = Inr True
          \<and> rooms (snd (join_room d1 now' rid uid dev' code')) = rooms d1"
    using rejoin_succeeds[OF f1 s1 e1 le1, of code'] c1
    by (simp add: d1_def rs_def recount_twice)
  from True j2 members exact keys others show ?thesis
    by (simp add: j1 d1_def)
qed

text \<open>
  Member 10 comes back while a seat is free, with a new device, and joins once more; in
  the full room the same call is refused.
\<close>

theorem rejoin_reactivates_witness:
  "find_room after_leave 1 = Some ((fresh_room 5)\<lparr>current_user_count := 4, updated_at := 6\<rparr>)
   \<and> status ((fresh_room 5)\<lparr>current_user_count := 4, updated_at := 6\<rparr>) = Active
   \<and> list_ex (is_row 1 10) (room_participants after_leave)
   \<and> active_count (rejoin_rows 20 1 10 (Some ''phone'') (room_participants after_leave)) 1 \<le> 5
   \<and> fst (join_room after_leave 20 1 10 (Some ''phone'') None) = Inr True
   \<and> map row_key (room_participants (snd (join_room after_leave 20 1 10 (Some ''phone'') None)))
        = map row_key (room_participants after_leave)
   \<and> fst (join_room (snd (join_room after_leave 20 1 10 (Some ''phone'') None)) 21 1 10 None None)
        = Inr True
   \<and> rooms (snd (join_room (snd (join_room after_leave 20 1 10 (Some ''phone'') None)) 21 1 10 None None))
        = rooms (snd (join_room after_leave 20 1 10 (Some ''phone'') None))
   \<and> find_room full_house 1 = Some ((fresh_room 5)\<lparr>current_user_count := 5, updated_at := 7\<rparr>)
   \<and> list_ex (is_row 1 10) (room_participants full_house)
   \<and> 5 < active_count (rejoin_rows 20 1 10 None (room_participants full_house)) 1
   \<and> join_room full_house 20 1 10 None None = (Inl Check_violation, full_house)"
proof -
  have a: "find_room after_leave 1 = Some ((fresh_room 5)\<lparr>current_user_count := 4, updated_at := 6\<rparr>)"
    by code_simp
  have b: "status ((fresh_room 5)\<lparr>current_user_count := 4, updated_at := 6\<rparr>) = Active"
    by (simp add: fresh_room_def)
  have c: "list_ex (is_row 1 10) (room_participants after_leave)" by code_simp
  have e: "active_count (rejoin_rows 20 1 10 (Some ''phone'') (room_participants after_leave)) 1 \<le> 5"
    by code_simp
  have a': "find_room full_house 1 = Some ((fresh_room 5)\<lparr>current_user_count := 5, updated_at := 7\<rparr>)"
    by code_simp
  have b': "status ((fresh_room 5)\<lparr>current_user_count := 5, updated_at := 7\<rparr>) = Active"
    by (simp add: fresh_room_def)
  have c': "list_ex (is_row 1 10) (room_participants full_house)" by code_simp
  have e': "5 < active_count (rejoin_rows 20 1 10 None (room_participants full_house)) 1"
    by code_simp
  from rejoin_reactivates[OF a b c, of 20 "Some ''phone''" None 21 None None]
       rejoin_reactivates[OF a' b' c', of 20 None None]
       a b c e a' c' e'
  show ?thesis by blast
qed

text \<open>
  C3 as stated fails in the full room for five: the former member 10 has a row, yet the
  join does not reactivate it.
\<close>

theorem rejoin_refused_when_five_active:
  "map r_id (rooms full_house) = [1] \<and> map status (rooms full_house) = [Active]
   \<and> list_ex (is_row 1 10) (room_participants full_house)
   \<and> fst (join_room full_house 20 1 10 (Some ''phone'') None) \<noteq> Inr True
   \<and> \<not> has_active_row (snd (join_room full_house 20 1 10 (Some ''phone'') None)) 1 10"
  by code_simp

section \<open>New memberships and the capacity test\<close>

lemma find_room_unique:
  "distinct (map r_id rs) \<Longrightarrow> find (\<lambda>x. r_id x = rid) rs = Some r \<Longrightarrow>
     x \<in> set rs \<Longrightarrow> r_id x = rid \<Longrightarrow> x = r"
  by (induction rs) (auto split: if_splits simp: image_iff)

lemma increment_update:
  assumes "distinct (map r_id rs)" and "find (\<lambda>x. r_id x = rid) rs = Some r"
  shows "update_rooms (\<lambda>x. r_id x = rid)
           (\<lambda>x. x\<lparr>current_user_count := current_user_count x + 1, updated_at := now\<rparr>) rs
         = (if count_check (current_user_count r + 1)
            then Some (map (\<lambda>x. if r_id x = rid
                                 then x\<lparr>current_user_count := current_user_count r + 1,
                                        updated_at := now\<rparr>
                                 else x) rs)
            else None)"
proof -
  have only: "\<And>x. x \<in> set rs \<Longrightarrow> r_id x = rid \<Longrightarrow> x = r"
    using find_room_unique[OF assms] by blast
  have mem: "r \<in> set rs \<and> r_id r = rid" using find_Some_mem[OF assms(2)] .
  have m: "map (\<lambda>x. if r_id x = rid
                     then x\<lparr>current_user_count := current_user_count x + 1, updated_at := now\<rparr>
                     else x) rs
         = map (\<lambda>x. if r_id x = rid
                     then x\<lparr>current_user_count := current_user_count r + 1, updated_at := now\<rparr>
                     else x) rs"
    by (rule map_cong) (auto dest: only)
  have c: "list_all (\<lambda>x. count_check (current_user_count
              (x\<lparr>current_user_count := current_user_count x + 1, updated_at := now\<rparr>)))
             (filter (\<lambda>x. r_id x = rid) rs)
           = count_check (current_user_count r + 1)"
    using mem only by (auto simp: list_all_iff)
  show ?thesis unfolding update_rooms_def c m by simp
qed

text \<open>
  C2 (as amended). A join that creates a new membership, past the room, status and join
  code tests, in a table whose room ids are unique: the capacity test reads the room's
  counter \<^verbatim>\<open>current_user_count\<close> (the number of active rows when the counter is
  exact). If the counter has reached \<^verbatim>\<open>max_participants\<close> the call answers ``Room
  full'' and changes nothing. Otherwise, if the incremented counter passes the store's
  check, one active row for the identity is appended, the active rows of the room are one
  more, and the room's row gets the incremented counter and the timestamp of the call; if
  it does not pass (the counter is 5 and the capacity larger) the call is aborted and
  changes nothing.
\<close>

theorem new_membership_capacity:
  assumes "find_room d rid = Some r" and "status r = Active"
    and "\<not> list_ex (is_row rid uid) (room_participants d)"
    and "\<not> (is_private r \<and> created_by r \<noteq> uid \<and> (code = None \<or> code \<noteq> Some (join_code r)))"
    and "distinct (map r_id (rooms d))"
  shows "(max_participants r \<le> current_user_count r \<longrightarrow>
            join_room d now rid uid dev code = (Inl Room_full, d))
       \<and> (current_user_count r < max_participants r \<and> count_check (current_user_count r + 1) \<longrightarrow>
            fst (join_room d now rid uid dev code) = Inr False
          \<and> room_participants (snd (join_room d now rid uid dev code))
               = room_participants d @ [new_row now rid uid dev]
          \<and> is_active (new_row now rid uid dev) \<and> is_row rid uid (new_row now rid uid dev)
          \<and> active_count (room_participants (snd (join_room d now rid uid dev code))) rid
               = active_count (room_participants d) rid + 1
          \<and> rooms (snd (join_room d now rid uid dev code))
               = map (\<lambda>x. if r_id x = rid
                           then x\<lparr>current_user_count := current_user_count r + 1,
                                  updated_at := now\<rparr>
                           else x) (rooms d))
       \<and> (current_user_count r < max_participants r \<and> \<not> count_check (current_user_count r + 1) \<longrightarrow>
            join_room d now rid uid dev code = (Inl Check_violation, d))"
proof -
  have f: "find (\<lambda>x. r_id x = rid) (rooms d) = Some r"
    using assms(1) by (simp add: find_room_def)
  show ?thesis
    using assms(1-4)
    by (auto simp: join_room_def Let_def increment_update[OF assms(5) f] active_count_append
          new_row_def is_row_def)
qed

text \<open>
  The creator enters the fresh room for five; a newcomer finds the full room full; in the
  room for six the sixth member is turned away by the store.
\<close>

theorem new_membership_capacity_witness:
  "find_room (fresh_ledger 5) 1 = Some (fresh_room 5) \<and> status (fresh_room 5) = Active
   \<and> \<not> list_ex (is_row 1 10) (room_participants (fresh_ledger 5))
   \<and> distinct (map r_id (rooms (fresh_ledger 5)))
   \<and> current_user_count (fresh_room 5) < max_participants (fresh_room 5)
   \<and> count_check (current_user_count (fresh_room 5) + 1)
   \<and> fst (join_room (fresh_ledger 5) 1 1 10 None None) = Inr False
   \<and> room_participants (snd (join_room (fresh_ledger 5) 1 1 10 None None))
        = room_participants (fresh_ledger 5) @ [new_row 1 1 10 None]
   \<and> find_room full_house 1 = Some ((fresh_room 5)\<lparr>current_user_count := 5, updated_at := 7\<rparr>)
   \<and> \<not> list_ex (is_row 1 16) (room_participants full_house)
   \<and> distinct (map r_id (rooms full_house))
   \<and> join_room full_house 20 1 16 None code1 = (Inl Room_full, full_house)
   \<and> find_room five_of_six 1 = Some ((fresh_room 6)\<lparr>current_user_count := 5, updated_at := 5\<rparr>)
   \<and> \<not> list_ex (is_row 1 15) (room_participants five_of_six)
   \<and> distinct (map r_id (rooms five_of_six))
   \<and> \<not> count_check (current_user_count ((fresh_room 6)\<lparr>current_user_count := 5, updated_at := 5\<rparr>) + 1)
   \<and> join_room five_of_six 9 1 15 None code1 = (Inl Check_violation, five_of_six)"
proof -
  have a: "find_room (fresh_ledger 5) 1 = Some (fresh_room 5)" by code_simp
  have b: "status (fresh_room 5) = Active" by (simp add: fresh_room_def)
  have c: "\<not> list_ex (is_row 1 10) (room_participants (fresh_ledger 5))"
    by (simp add: fresh_ledger_def)
  have e: "\<not> (is_private (fresh_room 5) \<and> created_by (fresh_room 5) \<noteq> 10
              \<and> (None = None \<or> None \<noteq> Some (join_code (fresh_room 5))))"
    by (simp add: fresh_room_def)
  have f: "distinct (map r_id (rooms (fresh_ledger 5)))" by (simp add: fresh_ledger_def)
  have g: "current_user_count (fresh_room 5) < max_participants (fresh_room 5)"
    "count_check (current_user_count (fresh_room 5) + 1)"
    by (simp_all add: fresh_room_def count_check_def)
  have a': "find_room full_house 1 = Some ((fresh_room 5)\<lparr>current_user_count := 5, updated_at := 7\<rparr>)"
    by code_simp
  have b': "status ((fresh_room 5)\<lparr>current_user_count := 5, updated_at := 7\<rparr>) = Active"
    by (simp add: fresh_room_def)
  have c': "\<not> list_ex (is_row 1 16) (room_participants full_house)" by code_simp
  have e': "\<not> (is_private ((fresh_room 5)\<lparr>current_user_count := 5, updated_at := 7\<rparr>)
              \<and> created_by ((fresh_room 5)\<lparr>current_user_count := 5, updated_at := 7\<rparr>) \<noteq> 16
              \<and> (code1 = None \<or> code1 \<noteq> Some (join_code ((fresh_room 5)\<lparr>current_user_count := 5, updated_at := 7\<rparr>))))"
    by (simp add: fresh_room_def code1_def)
  have f': "distinct (map r_id (rooms full_house))" by code_simp
  have g': "max_participants ((fresh_room 5)\<lparr>current_user_count := 5, updated_at := 7\<rparr>)
              \<le> current_user_count ((fresh_room 5)\<lparr>current_user_count := 5, updated_at := 7\<rparr>)"
    by (simp add: fresh_room_def)
  have a'': "find_room five_of_six 1
               = Some ((fresh_room 6)\<lparr>current_user_count := 5, updated_at := 5\<rparr>)"
    by code_simp
  have b'': "status ((fresh_room 6)\<lparr>current_user_count := 5, updated_at := 5\<rparr>) = Active"
    by (simp add: fresh_room_def)
  have c'': "\<not> list_ex (is_row 1 15) (room_participants five_of_six)" by code_simp
  have e'': "\<not> (is_private ((fresh_room 6)\<lparr>current_user_count := 5, updated_at := 5\<rparr>)
              \<and> created_by ((fresh_room 6)\<lparr>current_user_count := 5, updated_at := 5\<rparr>) \<noteq> 15
              \<and> (code1 = None \<or> code1 \<noteq> Some (join_code ((fresh_room 6)\<lparr>current_user_count := 5, updated_at := 5\<rparr>))))"
    by (simp add: fresh_room_def code1_def)
  have f'': "distinct (map r_id (rooms five_of_six))" by code_simp
  have g'': "current_user_count ((fresh_room 6)\<lparr>current_user_count := 5, updated_at := 5\<rparr>)
               < max_participants ((fresh_room 6)\<lparr>current_user_count := 5, updated_at := 5\<rparr>)"
    "\<not> count_check (current_user_count ((fresh_room 6)\<lparr>current_user_count := 5, updated_at := 5\<rparr>) + 1)"
    by (simp_all add: fresh_room_def count_check_def)
  have s1: "fst (join_room (fresh_ledger 5) 1 1 10 None None) = Inr False
     \<and> room_participants (snd (join_room (fresh_ledger 5) 1 1 10 None None))
          = room_participants (fresh_ledger 5) @ [new_row 1 1 10 None]"
    using new_membership_capacity[OF a b c e f, of 1 None] g by simp
  have s2: "join_room full_house 20 1 16 None code1 = (Inl Room_full, full_house)"
    using new_membership_capacity[OF a' b' c' e' f', of 20 None] g' by simp
  have s3: "join_room five_of_six 9 1 15 None code1 = (Inl Check_violation, five_of_six)"
    using new_membership_capacity[OF a'' b'' c'' e'' f'', of 9 None] g'' by simp
  from a b c f g a' c' f' a'' c'' f'' g''(2) s1 s2 s3 show ?thesis by simp
qed

text \<open>
  C2 as stated fails twice. In a room for one whose counter is 0 while one row is active,
  the active rows have reached the capacity, yet the newcomer is admitted. In a room for
  six with five active rows the capacity is not reached, yet no row is inserted: the
  store rejects the counter 6.
\<close>

theorem counter_not_active_count_and_sixth_seat:
  "map max_participants (rooms drifted_ledger) = [1]
   \<and> map status (rooms drifted_ledger) = [Active]
   \<and> \<not> list_ex (is_row 1 12) (room_participants drifted_ledger)
   \<and> active_count (room_participants drifted_ledger) 1 = 1
   \<and> fst (join_room drifted_ledger 9 1 12 None code1) = Inr False
   \<and> map max_participants (rooms five_of_six) = [6]
   \<and> map status (rooms five_of_six) = [Active]
   \<and> \<not> list_ex (is_row 1 15) (room_participants five_of_six)
   \<and> active_count (room_participants five_of_six) 1 = 5
   \<and> join_room five_of_six 9 1 15 None code1 = (Inl Check_violation, five_of_six)"
  by code_simp

section \<open>The sweep\<close>

lemma sweep_rows_twice: "sweep_rows now (sweep_rows now ps) = sweep_rows now ps"
  by (induction ps) (simp_all add: sweep_rows_def stale_def)

lemma sweep_rows_fresh:
  assumes "p \<in> set (sweep_rows now ps)" and "last_seen p < now - 120"
  shows "\<not> is_active p"
proof -
  from assms(1) obtain q where "q \<in> set ps"
    and p: "p = (if stale now q then q\<lparr>is_active := False\<rparr> else q)"
    by (auto simp: sweep_rows_def)
  show ?thesis
  proof (cases "stale now q")
    case True
    with p show ?thesis by simp
  next
    case False
    with p have "p = q" by simp
    with False assms(2) show ?thesis by (simp add: stale_def liveness_threshold_def)
  qed
qed

lemma sweep_rows_room_untouched:
  "\<forall>p\<in>set ps. room_id p = rid \<longrightarrow> \<not> stale now p \<Longrightarrow>
     filter (\<lambda>p. room_id p = rid) (sweep_rows now ps) = filter (\<lambda>p. room_id p = rid) ps"
  by (induction ps) (simp_all add: sweep_rows_def)

lemma active_count_room_untouched:
  "\<forall>p\<in>set ps. room_id p = rid \<longrightarrow> \<not> stale now p \<Longrightarrow>
     active_count (sweep_rows now ps) rid = active_count ps rid"
  by (induction ps) (simp_all add: sweep_rows_def active_count_def)

lemma sweep_update:
  "update_rooms (\<lambda>x. True) (\<lambda>x. x\<lparr>current_user_count := int (active_count ps (r_id x))\<rparr>) rs
     = (if list_all (\<lambda>x. active_count ps (r_id x) \<le> 5) rs
        then Some (map (\<lambda>x. x\<lparr>current_user_count := int (active_count ps (r_id x))\<rparr>) rs)
        else None)"
  by (simp add: update_rooms_def count_check_def)

lemma cleanup_result:
  "cleanup_inactive_participants d now
     = (if list_all (\<lambda>x. active_count (sweep_rows now (room_participants d)) (r_id x) \<le> 5) (rooms d)
        then (Inr (),
              \<lparr>rooms = map (\<lambda>x. x\<lparr>current_user_count :=
                              int (active_count (sweep_rows now (room_participants d)) (r_id x))\<rparr>)
                           (rooms d),
               room_participants = sweep_rows now (room_participants d)\<rparr>)
        else (Inl Check_violation, d))"
  by (simp add: cleanup_inactive_participants_def Let_def sweep_update)

lemma cleanup_succeeds:
  assumes "\<forall>r\<in>set (rooms d). active_count (room_participants d) (r_id r) \<le> 5"
  shows "fst (cleanup_inactive_participants d now) = Inr ()"
proof -
  have "list_all (\<lambda>x. active_count (sweep_rows now (room_participants d)) (r_id x) \<le> 5) (rooms d)"
    unfolding list_all_iff
  proof
    fix x assume "x \<in> set (rooms d)"
    with assms have "active_count (room_participants d) (r_id x) \<le> 5" by blast
    then show "active_count (sweep_rows now (room_participants d)) (r_id x) \<le> 5"
      using active_count_sweep_rows_le[of now "room_participants d" "r_id x"] by linarith
  qed
  then show ?thesis by (simp add: cleanup_result)
qed

lemma recount_map_twice:
  "map (\<lambda>x. x\<lparr>current_user_count := int (active_count ps (r_id x))\<rparr>)
     (map (\<lambda>x. x\<lparr>current_user_count := int (active_count ps (r_id x))\<rparr>) rs)
   = map (\<lambda>x. x\<lparr>current_user_count := int (active_count ps (r_id x))\<rparr>) rs"
  by (induction rs) simp_all

lemma cleanup_twice:
  "cleanup_inactive_participants (snd (cleanup_inactive_participants d now)) now
     = (fst (cleanup_inactive_participants d now), snd (cleanup_inactive_participants d now))"
proof (cases "list_all (\<lambda>x. active_count (sweep_rows now (room_participants d)) (r_id x) \<le> 5) (rooms d)")
  case False
  then have "cleanup_inactive_participants d now = (Inl Check_violation, d)"
    by (simp add: cleanup_result)
  then show ?thesis by simp
next
  case True
  then have c: "cleanup_inactive_participants d now = (Inr (),
              \<lparr>rooms = map (\<lambda>x. x\<lparr>current_user_count :=
                              int (active_count (sweep_rows now (room_participants d)) (r_id x))\<rparr>)
                           (rooms d),
               room_participants = sweep_rows now (room_participants d)\<rparr>)"
    by (simp add: cleanup_result)
  have t: "list_all (\<lambda>x. active_count (sweep_rows now (room_participants d)) (r_id x) \<le> 5)
            (map (\<lambda>x. x\<lparr>current_user_count :=
                              int (active_count (sweep_rows now (room_participants d)) (r_id x))\<rparr>)
                           (rooms d))"
    using True by (simp add: list_all_iff)
  show ?thesis
    unfolding c by (simp add: cleanup_result sweep_rows_twice t recount_map_twice)
qed

lemma sweep_rows_later:
  "now \<le> now' \<Longrightarrow> sweep_rows now' (sweep_rows now ps) = sweep_rows now' ps"
  by (induction ps) (simp_all add: sweep_rows_def stale_def)

lemma recount_map_over:
  "map (\<lambda>x. x\<lparr>current_user_count := int (active_count ps' (r_id x))\<rparr>)
     (map (\<lambda>x. x\<lparr>current_user_count := int (active_count ps (r_id x))\<rparr>) rs)
   = map (\<lambda>x. x\<lparr>current_user_count := int (active_count ps' (r_id x))\<rparr>) rs"
  by (induction rs) simp_all

lemma cleanup_later:
  assumes "now \<le> now'"
  shows "cleanup_inactive_participants (snd (cleanup_inactive_participants d now)) now'
           = cleanup_inactive_participants d now'"
proof (cases "list_all (\<lambda>x. active_count (sweep_rows now (room_participants d)) (r_id x) \<le> 5) (rooms d)")
  case False
  then have "cleanup_inactive_participants d now = (Inl Check_violation, d)"
    by (simp add: cleanup_result)
  then show ?thesis by simp
next
  case True
  then have c: "snd (cleanup_inactive_participants d now) =
              \<lparr>rooms = map (\<lambda>x. x\<lparr>current_user_count :=
                              int (active_count (sweep_rows now (room_participants d)) (r_id x))\<rparr>)
                           (rooms d),
               room_participants = sweep_rows now (room_participants d)\<rparr>"
    by (simp add: cleanup_result)
  have t: "list_all (\<lambda>x. active_count (sweep_rows now' (room_participants d)) (r_id x) \<le> 5)
            (map (\<lambda>x. x\<lparr>current_user_count :=
                              int (active_count (sweep_rows now (room_participants d)) (r_id x))\<rparr>)
                           (rooms d))
         = list_all (\<lambda>x. active_count (sweep_rows now' (room_participants d)) (r_id x) \<le> 5) (rooms d)"
    by (simp add: list_all_iff)
  have le: "active_count (sweep_rows now' (room_participants d)) rid
              \<le> active_count (sweep_rows now (room_participants d)) rid" for rid
    using active_count_sweep_rows_le[of now' "sweep_rows now (room_participants d)" rid]
    by (simp add: sweep_rows_later[OF assms])
  have t': "list_all (\<lambda>x. active_count (sweep_rows now' (room_participants d)) (r_id x) \<le> 5) (rooms d)"
    unfolding list_all_iff
  proof
    fix x assume "x \<in> set (rooms d)"
    with True have "active_count (sweep_rows now (room_participants d)) (r_id x) \<le> 5"
      by (simp add: list_all_iff)
    with le[of "r_id x"] show "active_count (sweep_rows now' (room_participants d)) (r_id x) \<le> 5"
      by linarith
  qed
  show ?thesis
    unfolding c
    by (simp add: cleanup_result[of _ now'] sweep_rows_later[OF assms] t t' recount_map_over)
qed

lemma sweep_rows_length: "length (sweep_rows now ps) = length ps"
  by (simp add: sweep_rows_def)

lemma sweep_rows_nth:
  "j < length ps \<Longrightarrow>
     sweep_rows now ps ! j = (if stale now (ps ! j) then (ps ! j)\<lparr>is_active := False\<rparr> else ps ! j)"
  by (simp add: sweep_rows_def)

lemma cleanup_completes_iff:
  "(fst (cleanup_inactive_participants d now) = Inr ())
     = list_all (\<lambda>r. active_count (sweep_rows now (room_participants d)) (r_id r) \<le> 5) (rooms d)"
  by (simp add: cleanup_result)

lemma cleanup_aborts:
  "fst (cleanup_inactive_participants d now) \<noteq> Inr ()
     \<Longrightarrow> cleanup_inactive_participants d now = (Inl Check_violation, d)"
  by (simp add: cleanup_result split: if_splits)

lemma cleanup_completed:
  "fst (cleanup_inactive_participants d now) = Inr ()
     \<Longrightarrow> snd (cleanup_inactive_participants d now)
          = \<lparr>rooms = map (\<lambda>x. x\<lparr>current_user_count :=
                              int (active_count (sweep_rows now (room_participants d)) (r_id x))\<rparr>)
                           (rooms d),
             room_participants = sweep_rows now (room_participants d)\<rparr>"
  by (simp add: cleanup_result split: if_splits)

text \<open>
  C6 (as amended). A sweep pass completes exactly when, after the demotion of the stale
  rows, no room is left with more than five active rows, and so whenever no room holds
  more than five active rows beforehand; otherwise the store rejects a recount, the pass
  is aborted and nothing changes. After a sweep that completes, every participant last
  seen more than 2 minutes (120 seconds) before the sweep is inactive, and the counter of
  every room is the exact number of its active rows. A second sweep at the same instant
  leaves the ledger that the first one left, and a second sweep at a later instant does
  what a single sweep at that instant does.
\<close>

theorem sweep_postcondition:
  "(fst (cleanup_inactive_participants d now) = Inr ())
      = list_all (\<lambda>r. active_count (sweep_rows now (room_participants d)) (r_id r) \<le> 5) (rooms d)
   \<and> ((\<forall>r\<in>set (rooms d). active_count (room_participants d) (r_id r) \<le> 5)
       \<longrightarrow> fst (cleanup_inactive_participants d now) = Inr ())
   \<and> (fst (cleanup_inactive_participants d now) \<noteq> Inr ()
       \<longrightarrow> cleanup_inactive_participants d now = (Inl Check_violation, d))
   \<and> (fst (cleanup_inactive_participants d now) = Inr () \<longrightarrow>
         (\<forall>p\<in>set (room_participants (snd (cleanup_inactive_participants d now))).
             last_seen p < now - 120 \<longrightarrow> \<not> is_active p)
       \<and> (\<forall>r\<in>set (rooms (snd (cleanup_inactive_participants d now))).
             current_user_count r
               = int (active_count (room_participants (snd (cleanup_inactive_participants d now)))
                        (r_id r)))
       \<and> fst (cleanup_inactive_participants (snd (cleanup_inactive_participants d now)) now) = Inr ())
   \<and> snd (cleanup_inactive_participants (snd (cleanup_inactive_participants d now)) now)
        = snd (cleanup_inactive_participants d now)
   \<and> (now \<le> now' \<longrightarrow>
         cleanup_inactive_participants (snd (cleanup_inactive_participants d now)) now'
           = cleanup_inactive_participants d now')"
proof -
  have a: "(\<forall>r\<in>set (rooms d). active_count (room_participants d) (r_id r) \<le> 5)
       \<longrightarrow> fst (cleanup_inactive_participants d now) = Inr ()"
    using cleanup_succeeds by blast
  have c: "snd (cleanup_inactive_participants (snd (cleanup_inactive_participants d now)) now)
        = snd (cleanup_inactive_participants d now)"
    and c': "fst (cleanup_inactive_participants (snd (cleanup_inactive_participants d now)) now)
        = fst (cleanup_inactive_participants d now)"
    by (simp_all add: cleanup_twice)
  have b: "(\<forall>p\<in>set (room_participants (snd (cleanup_inactive_participants d now))).
             last_seen p < now - 120 \<longrightarrow> \<not> is_active p)
       \<and> (\<forall>r\<in>set (rooms (snd (cleanup_inactive_participants d now))).
             current_user_count r
               = int (active_count (room_participants (snd (cleanup_inactive_participants d now)))
                        (r_id r)))"
    if ok: "fst (cleanup_inactive_participants d now) = Inr ()"
    unfolding cleanup_completed[OF ok] using sweep_rows_fresh by auto
  have e: "fst (cleanup_inactive_participants d now) \<noteq> Inr ()
       \<longrightarrow> cleanup_inactive_participants d now = (Inl Check_violation, d)"
    using cleanup_aborts by blast
  from a b c c' e cleanup_later[of now now' d] cleanup_completes_iff[of d now]
  show ?thesis by simp
qed

text \<open>
  At time 1000 the sweep of the two rooms demotes member 10 of room 1, last seen at 800,
  and recounts; the sweep of the crowded ledger is aborted.
\<close>

theorem sweep_postcondition_witness:
  "list_all (\<lambda>r. active_count (room_participants two_rooms) (r_id r) \<le> 5) (rooms two_rooms)
   \<and> list_all (\<lambda>r. active_count (sweep_rows 1000 (room_participants two_rooms)) (r_id r) \<le> 5)
        (rooms two_rooms)
   \<and> fst (cleanup_inactive_participants two_rooms 1000) = Inr ()
   \<and> row 1 10 False 800 \<in> set (room_participants (snd (cleanup_inactive_participants two_rooms 1000)))
   \<and> current_user_count (hd (rooms (snd (cleanup_inactive_participants two_rooms 1000)))) = 1
   \<and> snd (cleanup_inactive_participants (snd (cleanup_inactive_participants two_rooms 1000)) 1000)
        = snd (cleanup_inactive_participants two_rooms 1000)
   \<and> cleanup_inactive_participants (snd (cleanup_inactive_participants two_rooms 1000)) 1200
        = cleanup_inactive_participants two_rooms 1200
   \<and> \<not> list_all (\<lambda>r. active_count (sweep_rows 1000 (room_participants crowded)) (r_id r) \<le> 5)
        (rooms crowded)
   \<and> fst (cleanup_inactive_participants crowded 1000) \<noteq> Inr ()
   \<and> cleanup_inactive_participants crowded 1000 = (Inl Check_violation, crowded)"
proof -
  have a: "list_all (\<lambda>r. active_count (room_participants two_rooms) (r_id r) \<le> 5) (rooms two_rooms)"
    by code_simp
  have a': "list_all (\<lambda>r. active_count (sweep_rows 1000 (room_participants two_rooms)) (r_id r) \<le> 5)
        (rooms two_rooms)"
    by code_simp
  have b: "row 1 10 False 800 \<in> set (room_participants (snd (cleanup_inactive_participants two_rooms 1000)))"
    by code_simp
  have c: "current_user_count (hd (rooms (snd (cleanup_inactive_participants two_rooms 1000)))) = 1"
    by code_simp
  have e: "\<not> list_all (\<lambda>r. active_count (sweep_rows 1000 (room_participants crowded)) (r_id r) \<le> 5)
        (rooms crowded)"
    by code_simp
  have s1: "fst (cleanup_inactive_participants two_rooms 1000) = Inr ()
     \<and> snd (cleanup_inactive_participants (snd (cleanup_inactive_participants two_rooms 1000)) 1000)
        = snd (cleanup_inactive_participants two_rooms 1000)
     \<and> cleanup_inactive_participants (snd (cleanup_inactive_participants two_rooms 1000)) 1200
        = cleanup_inactive_participants two_rooms 1200"
    using sweep_postcondition[of two_rooms 1000 1200] a' by simp
  have s2: "fst (cleanup_inactive_participants crowded 1000) \<noteq> Inr ()
     \<and> cleanup_inactive_participants crowded 1000 = (Inl Check_violation, crowded)"
    using sweep_postcondition[of crowded 1000 1000] e by simp
  from a a' b c e s1 s2 show ?thesis by simp
qed

text \<open>
  C6 as stated fails in the crowded ledger: the recount of room 1 to 6 is rejected, the
  sweep is aborted, and afterwards member 20 of room 2, last seen at 800, is still active
  and room 1 has the counter 5 for six active rows.
\<close>

theorem sweep_aborts_in_crowded_ledger:
  "store_ok crowded \<and> keys_distinct crowded
   \<and> stale 1000 (row 2 20 True 800)
   \<and> fst (cleanup_inactive_participants crowded 1000) = Inl Check_violation
   \<and> row 2 20 True 800 \<in> set (room_participants (snd (cleanup_inactive_participants crowded 1000)))
   \<and> map current_user_count (rooms (snd (cleanup_inactive_participants crowded 1000))) = [5, 1]
   \<and> active_count (room_participants (snd (cleanup_inactive_participants crowded 1000))) 1 = 6"
  by code_simp

text \<open>
  C7 (as amended). A sweep changes no participant row but the stale ones: the table keeps
  its length, every row that is not stale stays as it is, in whatever room, and a stale
  row is marked inactive by a sweep that completes. The rooms are all recounted, the
  \<^verbatim>\<open>UPDATE rooms\<close> of the sweep having no \<^verbatim>\<open>WHERE\<close> clause: a completed
  sweep rewrites the counter of every room to the exact number of its active rows and
  changes nothing else in the room's row. For a room none of whose active rows is stale,
  the participant rows of the room are as before and the counter written is the number of
  active rows the room had, so the room's row is unchanged when its counter was exact. An
  aborted sweep changes nothing. Rows and rooms are addressed by their positions \<open>j\<close>
  and \<open>i\<close> in their tables.
\<close>

theorem sweep_frame:
  "length (room_participants (snd (cleanup_inactive_participants d now)))
      = length (room_participants d)
   \<and> (j < length (room_participants d) \<longrightarrow>
         (\<not> stale now (room_participants d ! j) \<longrightarrow>
            room_participants (snd (cleanup_inactive_participants d now)) ! j
              = room_participants d ! j)
       \<and> (stale now (room_participants d ! j) \<longrightarrow>
            room_participants (snd (cleanup_inactive_participants d now)) ! j
              = (if fst (cleanup_inactive_participants d now) = Inr ()
                 then (room_participants d ! j)\<lparr>is_active := False\<rparr>
                 else room_participants d ! j)))
   \<and> length (rooms (snd (cleanup_inactive_participants d now))) = length (rooms d)
   \<and> (i < length (rooms d) \<longrightarrow>
         rooms (snd (cleanup_inactive_participants d now)) ! i
           = (if fst (cleanup_inactive_participants d now) = Inr ()
              then (rooms d ! i)\<lparr>current_user_count :=
                     int (active_count (room_participants (snd (cleanup_inactive_participants d now)))
                            (r_id (rooms d ! i)))\<rparr>
              else rooms d ! i))
   \<and> (i < length (rooms d)
        \<and> (\<forall>p\<in>set (room_participants d). room_id p = r_id (rooms d ! i) \<longrightarrow> \<not> stale now p) \<longrightarrow>
         filter (\<lambda>p. room_id p = r_id (rooms d ! i))
              (room_participants (snd (cleanup_inactive_participants d now)))
           = filter (\<lambda>p. room_id p = r_id (rooms d ! i)) (room_participants d)
       \<and> rooms (snd (cleanup_inactive_participants d now)) ! i
           = (if fst (cleanup_inactive_participants d now) = Inr ()
              then (rooms d ! i)\<lparr>current_user_count :=
                     int (active_count (room_participants d) (r_id (rooms d ! i)))\<rparr>
              else rooms d ! i)
       \<and> (current_user_count (rooms d ! i)
             = int (active_count (room_participants d) (r_id (rooms d ! i)))
            \<longrightarrow> rooms (snd (cleanup_inactive_participants d now)) ! i = rooms d ! i))"
proof (cases "fst (cleanup_inactive_participants d now) = Inr ()")
  case False
  then have "cleanup_inactive_participants d now = (Inl Check_violation, d)"
    by (rule cleanup_aborts)
  then show ?thesis by simp
next
  case True
  note s = cleanup_completed[OF True]
  have rowpart: "length (sweep_rows now (room_participants d)) = length (room_participants d)
     \<and> (j < length (room_participants d) \<longrightarrow>
         (\<not> stale now (room_participants d ! j) \<longrightarrow>
            sweep_rows now (room_participants d) ! j = room_participants d ! j)
       \<and> (stale now (room_participants d ! j) \<longrightarrow>
            sweep_rows now (room_participants d) ! j
              = (room_participants d ! j)\<lparr>is_active := False\<rparr>))"
    by (simp add: sweep_rows_length sweep_rows_nth)
  have roompart: "i < length (rooms d) \<longrightarrow>
      map (\<lambda>x. x\<lparr>current_user_count :=
                   int (active_count (sweep_rows now (room_participants d)) (r_id x))\<rparr>) (rooms d) ! i
        = (rooms d ! i)\<lparr>current_user_count :=
                     int (active_count (sweep_rows now (room_participants d)) (r_id (rooms d ! i)))\<rparr>"
    by simp
  have quiet: "filter (\<lambda>p. room_id p = r_id (rooms d ! i)) (sweep_rows now (room_participants d))
             = filter (\<lambda>p. room_id p = r_id (rooms d ! i)) (room_participants d)
           \<and> active_count (sweep_rows now (room_participants d)) (r_id (rooms d ! i))
             = active_count (room_participants d) (r_id (rooms d ! i))"
    if "\<forall>p\<in>set (room_participants d). room_id p = r_id (rooms d ! i) \<longrightarrow> \<not> stale now p"
    using that sweep_rows_room_untouched active_count_room_untouched by blast
  have same: "(rooms d ! i)\<lparr>current_user_count := current_user_count (rooms d ! i)\<rparr> = rooms d ! i"
    by simp
  show ?thesis
    unfolding s using True rowpart roompart quiet same by (simp add: sweep_rows_length)
qed

text \<open>
  The sweep of the two rooms at 1000: of the two members of room 1 the stale one, 10, is
  demoted and the other, 11, is kept as he is; room 2, with no stale member and an exact
  counter, is left alone.
\<close>

theorem sweep_frame_witness:
  "1 < length (room_participants two_rooms)
   \<and> \<not> stale 1000 (room_participants two_rooms ! 1)
   \<and> room_participants (snd (cleanup_inactive_participants two_rooms 1000)) ! 1
        = room_participants two_rooms ! 1
   \<and> 0 < length (room_participants two_rooms)
   \<and> stale 1000 (room_participants two_rooms ! 0)
   \<and> fst (cleanup_inactive_participants two_rooms 1000) = Inr ()
   \<and> room_participants (snd (cleanup_inactive_participants two_rooms 1000)) ! 0
        = (room_participants two_rooms ! 0)\<lparr>is_active := False\<rparr>
   \<and> 1 < length (rooms two_rooms)
   \<and> \<not> list_ex (\<lambda>p. room_id p = r_id (rooms two_rooms ! 1) \<and> stale 1000 p) (room_participants two_rooms)
   \<and> current_user_count (rooms two_rooms ! 1)
        = int (active_count (room_participants two_rooms) (r_id (rooms two_rooms ! 1)))
   \<and> rooms (snd (cleanup_inactive_participants two_rooms 1000)) ! 1 = rooms two_rooms ! 1
   \<and> filter (\<lambda>p. room_id p = r_id (rooms two_rooms ! 1))
         (room_participants (snd (cleanup_inactive_participants two_rooms 1000)))
        = filter (\<lambda>p. room_id p = r_id (rooms two_rooms ! 1)) (room_participants two_rooms)"
proof -
  have a: "1 < length (rooms two_rooms)" "1 < length (room_participants two_rooms)"
    "0 < length (room_participants two_rooms)"
    by (simp_all add: two_rooms_def)
  have b: "\<not> list_ex (\<lambda>p. room_id p = r_id (rooms two_rooms ! 1) \<and> stale 1000 p) (room_participants two_rooms)"
    by code_simp
  then have b': "\<forall>p\<in>set (room_participants two_rooms).
                   room_id p = r_id (rooms two_rooms ! 1) \<longrightarrow> \<not> stale 1000 p"
    by (simp add: list_ex_iff)
  have c: "\<not> stale 1000 (room_participants two_rooms ! 1)" "stale 1000 (room_participants two_rooms ! 0)"
    by code_simp+
  have e: "fst (cleanup_inactive_participants two_rooms 1000) = Inr ()" by code_simp
  have f: "current_user_count (rooms two_rooms ! 1)
        = int (active_count (room_participants two_rooms) (r_id (rooms two_rooms ! 1)))"
    by code_simp
  have s1: "room_participants (snd (cleanup_inactive_participants two_rooms 1000)) ! 1
        = room_participants two_rooms ! 1"
    using sweep_frame[of two_rooms 1000 1 1] a(2) c(1) by simp
  have s2: "room_participants (snd (cleanup_inactive_participants two_rooms 1000)) ! 0
        = (room_participants two_rooms ! 0)\<lparr>is_active := False\<rparr>"
    using sweep_frame[of two_rooms 1000 0 1] a(3) c(2) e by simp
  have s3: "rooms (snd (cleanup_inactive_participants two_rooms 1000)) ! 1 = rooms two_rooms ! 1
     \<and> filter (\<lambda>p. room_id p = r_id (rooms two_rooms ! 1))
         (room_participants (snd (cleanup_inactive_participants two_rooms 1000)))
        = filter (\<lambda>p. room_id p = r_id (rooms two_rooms ! 1)) (room_participants two_rooms)"
    using sweep_frame[of two_rooms 1000 1 1] a(1) b' f by blast
  from a b c e f s1 s2 s3 show ?thesis by simp
qed

text \<open>
  C7 as stated fails for a room whose counter is not exact: nobody in the room is stale,
  yet the sweep changes the room's counter from 3 to 1.
\<close>

theorem sweep_rewrites_miscounted_room:
  "\<not> list_ex (stale 1000) (room_participants miscounted)
   \<and> map current_user_count (rooms miscounted) = [3]
   \<and> map current_user_count (rooms (snd (cleanup_inactive_participants miscounted 1000))) = [1]"
  by code_simp

section \<open>Regenerating the join code\<close>

lemma upt_1_7: "[Suc 0..<7] = [Suc 0, 2, 3, 4, 5, 6]"
  by code_simp

lemma length_chars: "length chars = 32"
  by (simp add: chars_def)

lemma distinct_chars: "distinct chars"
  by (simp add: chars_def)

lemma chars_unambiguous:
  "CHR ''I'' \<notin> set chars \<and> CHR ''O'' \<notin> set chars \<and> CHR ''0'' \<notin> set chars \<and> CHR ''1'' \<notin> set chars"
  by (simp add: chars_def)

lemma take_one_drop: "n < length xs \<Longrightarrow> take (Suc 0) (drop n xs) = [xs ! n]"
  by (simp add: Cons_nth_drop_Suc[symmetric])

lemma substr_chars:
  assumes "Suc 0 \<le> k" and "k \<le> length chars"
  shows "substr chars k (Suc 0) = [chars ! (k - Suc 0)]"
proof -
  have "k - Suc 0 < length chars" using assms by simp
  then have "take (Suc 0) (drop (k - Suc 0) chars) = [chars ! (k - Suc 0)]"
    by (rule take_one_drop)
  with assms(1) show ?thesis by (simp add: substr_def)
qed

lemma generate_join_code_unfold:
  "generate_join_code draw
     = substr chars (draw (Suc 0)) (Suc 0) @ substr chars (draw 2) (Suc 0)
       @ substr chars (draw 3) (Suc 0) @ substr chars (draw 4) (Suc 0)
       @ substr chars (draw 5) (Suc 0) @ substr chars (draw 6) (Suc 0)"
  by (simp add: generate_join_code_def upt_1_7)

lemma draw_ok_iff:
  "draw_ok draw = (\<forall>i\<in>{Suc 0, 2, 3, 4, 5, 6}. Suc 0 \<le> draw i \<and> draw i \<le> length chars)"
  by (simp add: draw_ok_def upt_1_7)

lemma generate_join_code_nth:
  "draw_ok draw \<Longrightarrow>
   generate_join_code draw
     = [chars ! (draw (Suc 0) - Suc 0), chars ! (draw 2 - Suc 0), chars ! (draw 3 - Suc 0),
        chars ! (draw 4 - Suc 0), chars ! (draw 5 - Suc 0), chars ! (draw 6 - Suc 0)]"
  by (simp add: generate_join_code_unfold draw_ok_iff substr_chars)

lemma generate_join_code_valid:
  assumes "draw_ok draw"
  shows "length (generate_join_code draw) = 6 \<and> set (generate_join_code draw) \<subseteq> set chars"
proof -
  have "\<And>i. i \<in> {Suc 0, 2, 3, 4, 5, 6} \<Longrightarrow> chars ! (draw i - Suc 0) \<in> set chars"
  proof -
    fix i :: nat assume "i \<in> {Suc 0, 2, 3, 4, 5, 6}"
    with assms have "Suc 0 \<le> draw i \<and> draw i \<le> length chars"
      unfolding draw_ok_iff by blast
    then have "draw i - Suc 0 < length chars" by arith
    then show "chars ! (draw i - Suc 0) \<in> set chars" by (rule nth_mem)
  qed
  then show ?thesis by (simp add: generate_join_code_nth[OF assms])
qed

lemma chars_nth_inj:
  assumes "Suc 0 \<le> a" "a \<le> length chars" "Suc 0 \<le> b" "b \<le> length chars"
  shows "(chars ! (a - Suc 0) = chars ! (b - Suc 0)) = (a = b)"
proof -
  have "a - Suc 0 < length chars" "b - Suc 0 < length chars" using assms by simp_all
  then have "(chars ! (a - Suc 0) = chars ! (b - Suc 0)) = (a - Suc 0 = b - Suc 0)"
    using distinct_chars by (simp add: nth_eq_iff_index_eq)
  with assms show ?thesis by auto
qed

lemma generate_join_code_inj:
  assumes "draw_ok draw" and "draw_ok draw'"
  shows "(generate_join_code draw = generate_join_code draw')
          = (\<forall>i\<in>{Suc 0, 2, 3, 4, 5, 6}. draw i = draw' i)"
proof -
  have e: "(chars ! (draw i - Suc 0) = chars ! (draw' i - Suc 0)) = (draw i = draw' i)"
    if "i \<in> {Suc 0, 2, 3, 4, 5, 6}" for i
  proof -
    from that assms have "Suc 0 \<le> draw i \<and> draw i \<le> length chars"
      and "Suc 0 \<le> draw' i \<and> draw' i \<le> length chars"
      unfolding draw_ok_iff by blast+
    then show ?thesis by (simp add: chars_nth_inj)
  qed
  show ?thesis
    by (simp add: generate_join_code_nth[OF assms(1)] generate_join_code_nth[OF assms(2)] e)
qed

lemma code_update_passes:
  "store_ok d \<Longrightarrow>
   update_rooms (\<lambda>x. r_id x = rid) (\<lambda>x. x\<lparr>join_code := c\<rparr>) (rooms d)
     = Some (map (\<lambda>x. if r_id x = rid then x\<lparr>join_code := c\<rparr> else x) (rooms d))"
  by (simp add: update_rooms_def store_ok_def list_all_iff)

text \<open>
  C8 (as amended). \<^verbatim>\<open>regenerate_join_code\<close> answers ``Room not found'' for a room
  that does not exist and ``Only the host can regenerate the join code'' for a caller who
  is not the creator, and changes nothing in either case. For the creator it draws a code
  of 6 characters, all from the alphabet, which has no I, O, 0 or 1. If another room holds
  that code the unique index rejects the update: the call is aborted, not retried, and
  nothing changes. Otherwise the code replaces the room's join code and nothing else
  changes. Two codes are distinct exactly when their draws differ in one of the six
  positions, so two successive calls return distinct codes unless the draws repeat.
\<close>

theorem regenerate_join_code_effect:
  "(find_room d rid = None \<longrightarrow> regenerate_join_code d draw rid uid = (Inl Room_not_found, d))
   \<and> (find_room d rid = Some r \<and> created_by r \<noteq> uid
        \<longrightarrow> regenerate_join_code d draw rid uid = (Inl Only_the_host, d))
   \<and> (find_room d rid = Some r \<and> created_by r = uid \<and> draw_ok draw \<and> store_ok d \<longrightarrow>
          length (generate_join_code draw) = 6
        \<and> set (generate_join_code draw) \<subseteq> set chars
        \<and> CHR ''I'' \<notin> set chars \<and> CHR ''O'' \<notin> set chars
        \<and> CHR ''0'' \<notin> set chars \<and> CHR ''1'' \<notin> set chars
        \<and> (list_ex (\<lambda>x. r_id x \<noteq> rid \<and> join_code x = generate_join_code draw) (rooms d)
              \<longrightarrow> regenerate_join_code d draw rid uid = (Inl Unique_violation, d))
        \<and> (\<not> list_ex (\<lambda>x. r_id x \<noteq> rid \<and> join_code x = generate_join_code draw) (rooms d)
              \<longrightarrow> fst (regenerate_join_code d draw rid uid) = Inr (generate_join_code draw)
                \<and> rooms (snd (regenerate_join_code d draw rid uid))
                     = map (\<lambda>x. if r_id x = rid then x\<lparr>join_code := generate_join_code draw\<rparr>
                                 else x) (rooms d)
                \<and> room_participants (snd (regenerate_join_code d draw rid uid))
                     = room_participants d))
   \<and> (draw_ok draw \<and> draw_ok draw'
        \<longrightarrow> (generate_join_code draw = generate_join_code draw')
              = (\<forall>i\<in>{1, 2, 3, 4, 5, 6}. draw i = draw' i))"
proof -
  have a: "find_room d rid = None \<longrightarrow> regenerate_join_code d draw rid uid = (Inl Room_not_found, d)"
    by (simp add: regenerate_join_code_def)
  have b: "find_room d rid = Some r \<and> created_by r \<noteq> uid
        \<longrightarrow> regenerate_join_code d draw rid uid = (Inl Only_the_host, d)"
    by (simp add: regenerate_join_code_def)
  have c: "length (generate_join_code draw) = 6 \<and> set (generate_join_code draw) \<subseteq> set chars"
    if "draw_ok draw"
    using that by (rule generate_join_code_valid)
  have e: "list_ex (\<lambda>x. r_id x \<noteq> rid \<and> join_code x = generate_join_code draw) (rooms d)
              \<longrightarrow> regenerate_join_code d draw rid uid = (Inl Unique_violation, d)"
    if "find_room d rid = Some r" "created_by r = uid"
    using that by (simp add: regenerate_join_code_def Let_def)
  have f: "\<not> list_ex (\<lambda>x. r_id x \<noteq> rid \<and> join_code x = generate_join_code draw) (rooms d)
              \<longrightarrow> fst (regenerate_join_code d draw rid uid) = Inr (generate_join_code draw)
                \<and> rooms (snd (regenerate_join_code d draw rid uid))
                     = map (\<lambda>x. if r_id x = rid then x\<lparr>join_code := generate_join_code draw\<rparr>
                                 else x) (rooms d)
                \<and> room_participants (snd (regenerate_join_code d draw rid uid))
                     = room_participants d"
    if "find_room d rid = Some r" "created_by r = uid" "store_ok d"
    using that by (simp add: regenerate_join_code_def Let_def code_update_passes)
  have g: "draw_ok draw \<and> draw_ok draw'
        \<longrightarrow> (generate_join_code draw = generate_join_code draw')
              = (\<forall>i\<in>{1, 2, 3, 4, 5, 6}. draw i = draw' i)"
    using generate_join_code_inj[of draw draw'] by simp
  from a b c e f g chars_unambiguous show ?thesis by blast
qed

text \<open>
  The creator 10 of room 1 draws six times the last character; draws the code of room 2;
  user 11 tries; room 3 does not exist.
\<close>

theorem regenerate_join_code_effect_witness:
  "find_room two_rooms 1 = Some (hd (rooms two_rooms)) \<and> created_by (hd (rooms two_rooms)) = 10
   \<and> draw_ok draw_last \<and> draw_ok draw_room2 \<and> store_ok two_rooms
   \<and> \<not> list_ex (\<lambda>x. r_id x \<noteq> 1 \<and> join_code x = generate_join_code draw_last) (rooms two_rooms)
   \<and> fst (regenerate_join_code two_rooms draw_last 1 10) = Inr (generate_join_code draw_last)
   \<and> length (generate_join_code draw_last) = 6
   \<and> list_ex (\<lambda>x. r_id x \<noteq> 1 \<and> join_code x = generate_join_code draw_room2) (rooms two_rooms)
   \<and> regenerate_join_code two_rooms draw_room2 1 10 = (Inl Unique_violation, two_rooms)
   \<and> regenerate_join_code two_rooms draw_last 1 11 = (Inl Only_the_host, two_rooms)
   \<and> find_room two_rooms 3 = None
   \<and> regenerate_join_code two_rooms draw_last 3 10 = (Inl Room_not_found, two_rooms)
   \<and> generate_join_code draw_last \<noteq> generate_join_code draw_room2"
proof -
  have a: "find_room two_rooms 1 = Some (hd (rooms two_rooms))" by code_simp
  have b: "created_by (hd (rooms two_rooms)) = 10" "created_by (hd (rooms two_rooms)) \<noteq> 11"
    by code_simp+
  have c: "draw_ok draw_last" "draw_ok draw_room2" by code_simp+
  have e: "store_ok two_rooms" by code_simp
  have f: "\<not> list_ex (\<lambda>x. r_id x \<noteq> 1 \<and> join_code x = generate_join_code draw_last) (rooms two_rooms)"
    by code_simp
  have g: "list_ex (\<lambda>x. r_id x \<noteq> 1 \<and> join_code x = generate_join_code draw_room2) (rooms two_rooms)"
    by code_simp
  have h: "find_room two_rooms 3 = None" by code_simp
  have i: "\<not> (\<forall>i\<in>{1, 2, 3, 4, 5, 6}. draw_last i = draw_room2 i)"
    by (simp add: draw_last_def draw_room2_def)
  have s1: "fst (regenerate_join_code two_rooms draw_last 1 10) = Inr (generate_join_code draw_last)
        \<and> length (generate_join_code draw_last) = 6
        \<and> generate_join_code draw_last \<noteq> generate_join_code draw_room2"
    using regenerate_join_code_effect[of two_rooms 1 draw_last 10 "hd (rooms two_rooms)" draw_room2]
      a b(1) c e f i by simp
  have s2: "regenerate_join_code two_rooms draw_room2 1 10 = (Inl Unique_violation, two_rooms)"
    using regenerate_join_code_effect[of two_rooms 1 draw_room2 10 "hd (rooms two_rooms)" draw_last]
      a b(1) c e g by simp
  have s3: "regenerate_join_code two_rooms draw_last 1 11 = (Inl Only_the_host, two_rooms)"
    using regenerate_join_code_effect[of two_rooms 1 draw_last 11 "hd (rooms two_rooms)" draw_last]
      a b(2) by simp
  have s4: "regenerate_join_code two_rooms draw_last 3 10 = (Inl Room_not_found, two_rooms)"
    using regenerate_join_code_effect[of two_rooms 3 draw_last 10 "hd (rooms two_rooms)" draw_last]
      h by simp
  from s1 s2 s3 s4 a b(1) c e f g h show ?thesis by simp
qed

text \<open>
  C8 as stated fails: when the draws spell the code of room 2, the creator's call is
  aborted on the unique index without a retry, and the code of room 1 is not replaced;
  and two successive calls whose draws repeat return the same code twice.
\<close>

theorem code_clash_aborts_and_draws_repeat:
  "map created_by (rooms two_rooms) = [10, 10] \<and> draw_ok draw_room2 \<and> draw_ok draw_last
   \<and> regenerate_join_code two_rooms draw_room2 1 10 = (Inl Unique_violation, two_rooms)
   \<and> fst (regenerate_join_code two_rooms draw_last 1 10) = Inr ''999999''
   \<and> fst (regenerate_join_code (snd (regenerate_join_code two_rooms draw_last 1 10)) draw_last 1 10)
        = Inr ''999999''"
  by code_simp

end
